theory Spec2Isabelle
  imports Main
begin

section \<open>The Enterosignature transformer (enterosig\_sl.py)\<close>

text \<open>
  The program is a Streamlit script. It reads an uploaded abundance table, hands it to
  the reapplication core of the cvanmf library, packs the results into a zip archive and
  shows plots. Everything the script does is a call into a library (streamlit, pandas,
  zipfile, cvanmf), so a run of the script is modelled by the list of calls it makes,
  in order, together with the state that outlives the run. A call that raises is the
  last call of its run; what follows it in the list is what the handler writes.

  The libraries are parameters of the model (\<open>libs\<close>); the script's own functions
  are definitions. A leading underscore of a source name is written \<open>u_\<close>.
\<close>

subsection \<open>Values of the libraries\<close>

text \<open>
  Exceptions. The \<^verbatim>\<open>try\<close> of the script catches \<^verbatim>\<open>EnteroException\<close> only;
  every other exception leaves the script. Both carry their message.
\<close>

datatype exn = EnteroException string | OtherException string

text \<open>
  \<^verbatim>\<open>Decomposition\<close>, as far as the script reads it. A frame \<open>'df\<close> is a pandas
  DataFrame or Series. \<open>scaled_w\<close> and \<open>scaled_h\<close> are what the method calls
  \<^verbatim>\<open>scaled('w')\<close> and \<^verbatim>\<open>scaled('h')\<close> return;
  \<open>parameters_x\<close> is \<^verbatim>\<open>parameters.x\<close>; \<open>feature_mapping\<close> is
  \<^verbatim>\<open>feature_mapping.to_df()\<close>; \<open>colors\<close> is the attribute the script assigns.
\<close>

record 'df decomposition =
  dec_w :: 'df
  dec_h :: 'df
  scaled_w :: 'df
  scaled_h :: 'df
  parameters_x :: 'df
  model_fit :: 'df
  quality_series :: 'df
  primary_signature :: 'df
  representative_signatures :: 'df
  monodominant_samples :: 'df
  feature_mapping :: 'df
  colors :: "(string \<times> string) list"

text \<open>
  The keyword arguments of \<^verbatim>\<open>cvanmf.reapply.transform_table\<close>. \<open>model_w\<close> is a
  reference: the index of the matrix object in the heap of the process. The dict
  \<open>hard_mapping\<close> is an association list. The \<^verbatim>\<open>logger\<close> argument is not a field:
  the messages the core passes to it are part of the core's result (see \<open>libs\<close>).
\<close>

record 'df transform_args =
  abundance :: 'df
  rollup :: bool
  model_w :: nat
  hard_mapping :: "(string \<times> string) list"

text \<open>The constants of the module \<^verbatim>\<open>text\<close>, which the script imports.\<close>

record text_module =
  TITLE :: string
  UPLOAD_LABEL :: string
  UPLOAD_TOOLTIP :: string
  ROLLUP_LABEL :: string
  ROLLUP_TOOLTIP :: string
  EXPANDER_UPLOAD :: string
  EXPANDER_LOG :: string
  EXPANDER_RESULTS :: string
  SUMMARY :: string
  INPUT_FORMAT :: string
  CAVEATS :: string
  DOWNLOAD_LABEL :: string
  RESULTS :: string
  WEIGHT_PLOT_TITLE :: string
  WEIGHT_PLOT_CAPTION :: string
  MODELFIT_PLOT_TITLE :: string
  PCOA_PLOT_TITLE :: string

subsection \<open>The calls of a run\<close>

text \<open>
  Streamlit writes an element into the container that is current: the page, one of the
  two columns, or one of the three expanders.
\<close>

datatype container =
  Page | Col_upload | Col_opts | Expander_upload | Expander_log | Expander_results

datatype plot = Plot_relative_weight | Plot_modelfit | Plot_pcoa

text \<open>
  One constructor per call. \<open>St_markdown c body unsafe_allow_html\<close>,
  \<open>St_file_uploader c label help\<close>, \<open>St_toggle c label value help\<close>,
  \<open>St_expander label expanded\<close>, \<open>St_download_button c label data file_name\<close>.
  \<open>St_write_plot c p\<close> is \<^verbatim>\<open>st.write\<close> of the figure that the plot method \<open>p\<close> of
  the decomposition draws. \<open>Load_five_es r\<close> is the call of \<^verbatim>\<open>five_es()\<close>, whose
  result is the new object \<open>r\<close>. \<open>Call_log message to_screen\<close> is a call of
  \<^verbatim>\<open>Logger.log\<close>. \<open>Set_colors d cs\<close> is the assignment
  \<^verbatim>\<open>d.colors = cs\<close>; \<open>Dec_get d a\<close> is the read of the attribute or the call of the
  method \<open>a\<close> of the decomposition \<open>d\<close>; \<open>To_csv df sep\<close> is \<^verbatim>\<open>df.to_csv(sep=sep)\<close>;
  \<open>Get_shape df\<close> is \<^verbatim>\<open>df.shape[1]\<close>. \<open>St_write_plot c p\<close> stands for the plot
  method, the drawing of its result and \<^verbatim>\<open>st.write\<close> together.
  \<open>Uncaught e\<close> is an exception that leaves the script.
\<close>

datatype ('file, 'df) effect =
    St_markdown container string bool
  | St_title string
  | St_columns "(nat \<times> nat) list"
  | St_file_uploader container string string
  | St_toggle container string bool string
  | St_expander string bool
  | St_write container string
  | St_write_plot container plot
  | St_download_button container string "(string \<times> string) list" string
  | Load_five_es nat
  | Call_log string bool
  | Call_read_csv 'file string nat
  | Call_transform_table "'df transform_args"
  | Call_zip_items "(string \<times> string) list"
  | Set_colors "'df decomposition" "(string \<times> string) list"
  | Dec_get "'df decomposition" string
  | To_csv 'df string
  | Get_shape 'df
  | Uncaught exn

subsection \<open>The libraries\<close>

text \<open>
  The library functions the script calls.
  \<^item> \<open>five_es\<close>: the frame that \<^verbatim>\<open>cvanmf.models.five_es()\<close> loads;
  \<^item> \<open>read_csv f sep index_col\<close>: \<^verbatim>\<open>pd.read_csv(f, sep=sep, index_col=index_col)\<close>;
  \<^item> \<open>to_csv df sep\<close>: what \<^verbatim>\<open>df.to_csv(sep=sep)\<close> returns, when it returns;
  \<^item> \<open>shape df\<close>: what \<^verbatim>\<open>df.shape\<close> is, when the read returns;
  \<^item> \<open>transform_table heap args\<close>: \<^verbatim>\<open>cvanmf.reapply.transform_table\<close>. It returns
    the messages it passes to its \<^verbatim>\<open>logger\<close> callback, in order, and then either the
    exception it raises or the decomposition it returns; it reads the frames of the
    heap and does not write them;
  \<^item> \<open>raises e\<close>: the exception that the library call \<open>e\<close> raises, \<open>None\<close> when it
    returns. It is asked for the calls inside the \<^verbatim>\<open>try\<close> that have no function of
    their own here: the assignment of \<^verbatim>\<open>colors\<close>, the reads of the decomposition,
    \<^verbatim>\<open>to_csv\<close>, \<^verbatim>\<open>shape\<close>, \<^verbatim>\<open>st.download_button\<close>, \<^verbatim>\<open>st.markdown\<close> and the
    plots;
  \<^item> \<open>deflated_size data\<close>: the number of bytes of the DEFLATE stream that zlib writes
    for \<open>data\<close>;
  \<^item> \<open>readme_txt\<close>: the contents of \<^verbatim>\<open>README.txt\<close> in \<^verbatim>\<open>cvanmf.data\<close>;
  \<^item> \<open>text_py\<close>: the module \<^verbatim>\<open>text\<close>.
\<close>

record ('file, 'df) libs =
  five_es :: 'df
  read_csv :: "'file \<Rightarrow> string \<Rightarrow> nat \<Rightarrow> exn + 'df"
  to_csv :: "'df \<Rightarrow> string \<Rightarrow> string"
  shape :: "'df \<Rightarrow> nat \<times> nat"
  transform_table :: "'df list \<Rightarrow> 'df transform_args \<Rightarrow> string list \<times> (exn + 'df decomposition)"
  raises :: "('file, 'df) effect \<Rightarrow> exn option"
  deflated_size :: "string \<Rightarrow> nat"
  readme_txt :: string
  text_py :: text_module

subsection \<open>Python and Streamlit primitives\<close>

text \<open>\<^verbatim>\<open>sep.join(xs)\<close>.\<close>

fun join :: "string \<Rightarrow> string list \<Rightarrow> string" where
  "join sep [] = []"
| "join sep [x] = x"
| "join sep (x # y # ys) = x @ sep @ join sep (y # ys)"

text \<open>A parameter with a default value: \<open>None\<close> is the call that leaves it out.\<close>

definition py_default :: "'a \<Rightarrow> 'a option \<Rightarrow> 'a" where
  "py_default d v = (case v of None \<Rightarrow> d | Some x \<Rightarrow> x)"

text \<open>
  \<^verbatim>\<open>st.toggle(label, value=v)\<close> returns \<open>v\<close> until the user has switched the widget,
  and the user's setting afterwards.
\<close>

definition st_toggle :: "bool \<Rightarrow> bool option \<Rightarrow> bool" where
  "st_toggle v user = (case user of None \<Rightarrow> v | Some b \<Rightarrow> b)"

definition tab :: string where
  "tab = [CHR 0x09]"

definition newline :: string where
  "newline = [CHR 0x0A]"

subsection \<open>\_zip\_items\<close>

text \<open>
  \<^verbatim>\<open>zipfile\<close>, as the standard library of CPython 3.11 has it, for an archive opened
  on an empty buffer with \<^verbatim>\<open>ZipFile(zbuffer, "a", ZIP_DEFLATED, False)\<close>, that is
  without ZIP64. An archive is the list of its entries (name, contents) in the order
  they were written; strings are the bytes of their UTF-8 encoding, sizes and offsets
  are Python integers. The state of the
  open \<^verbatim>\<open>ZipFile\<close> is its \<open>filelist\<close> and \<open>start_dir\<close>, the offset in the buffer
  where the next entry starts.
\<close>

type_synonym archive = "(string \<times> string) list"

record zip_file =
  filelist :: archive
  start_dir :: int

definition ZIP64_LIMIT :: int where
  "ZIP64_LIMIT = 2147483647"

definition ZIP_FILECOUNT_LIMIT :: int where
  "ZIP_FILECOUNT_LIMIT = 65535"

text \<open>\<^verbatim>\<open>ZipInfo\<close> ends the file name at the first null byte.\<close>

definition cut_nul :: "string \<Rightarrow> string" where
  "cut_nul name = takeWhile (\<lambda>c. c \<noteq> CHR 0x00) name"

text \<open>
  \<^verbatim>\<open>with self.open(zinfo, mode='w') as dest: dest.write(data)\<close>, in the order of the
  checks: \<^verbatim>\<open>_open_to_write\<close> refuses a file with
  \<^verbatim>\<open>file_size * 1.05 > ZIP64_LIMIT\<close> (for a size that is a whole number this is
  \<open>105 * file_size > 100 * ZIP64_LIMIT\<close>); \<^verbatim>\<open>_writecheck\<close> refuses the entry when the
  archive holds \<^verbatim>\<open>ZIP_FILECOUNT_LIMIT\<close> entries or the header would start beyond
  \<^verbatim>\<open>ZIP64_LIMIT\<close>; \<^verbatim>\<open>FileHeader\<close> packs the length of the name into 16 bits; closing
  the handle refuses a compressed size beyond \<^verbatim>\<open>ZIP64_LIMIT\<close>, and otherwise appends
  the entry. The local header has 30 bytes and the name; the duplicate of a name is
  written as one more entry.
\<close>

definition zf_open_write ::
  "('file, 'df) libs \<Rightarrow> zip_file \<Rightarrow> string \<Rightarrow> string \<Rightarrow> exn + zip_file" where
  "zf_open_write lb z filename data =
     (if 100 * ZIP64_LIMIT < 105 * int (length data)
      then Inl (OtherException ''LargeZipFile'')
      else if ZIP_FILECOUNT_LIMIT \<le> int (length (filelist z))
      then Inl (OtherException ''LargeZipFile'')
      else if ZIP64_LIMIT < start_dir z
      then Inl (OtherException ''LargeZipFile'')
      else if 65535 < int (length filename)
      then Inl (OtherException ''struct.error'')
      else if ZIP64_LIMIT < int (deflated_size lb data)
      then Inl (OtherException ''RuntimeError'')
      else Inr \<lparr>filelist = filelist z @ [(filename, data)],
                start_dir = start_dir z + 30 + int (length filename)
                            + int (deflated_size lb data)\<rparr>)"

text \<open>
  \<^verbatim>\<open>z.writestr(name, contents)\<close>: the test \<^verbatim>\<open>zinfo.filename[-1] == '/'\<close> raises
  \<^verbatim>\<open>IndexError\<close> when nothing is left of the name.
\<close>

definition writestr ::
  "('file, 'df) libs \<Rightarrow> zip_file \<Rightarrow> string \<Rightarrow> string \<Rightarrow> exn + zip_file" where
  "writestr lb z name contents =
     (let filename = cut_nul name
      in if filename = [] then Inl (OtherException ''IndexError'')
         else zf_open_write lb z filename contents)"

text \<open>
  \<^verbatim>\<open>z.write(path, arcname=arcname)\<close> for a regular file with the contents \<open>data\<close> and
  an \<open>arcname\<close> that \<^verbatim>\<open>ZipInfo.from_file\<close> leaves as it is.
\<close>

definition zf_write ::
  "('file, 'df) libs \<Rightarrow> zip_file \<Rightarrow> string \<Rightarrow> string \<Rightarrow> exn + zip_file" where
  "zf_write lb z arcname data = zf_open_write lb z arcname data"

text \<open>
  \<^verbatim>\<open>close\<close>, which \<^verbatim>\<open>__exit__\<close> calls: \<^verbatim>\<open>_write_end_record\<close> writes 46 bytes and
  the name for each entry and refuses a central directory that needs ZIP64.
\<close>

definition dir_size :: "archive \<Rightarrow> int" where
  "dir_size entries = sum_list (map (\<lambda>(name, contents). 46 + int (length name)) entries)"

definition zf_close :: "zip_file \<Rightarrow> exn option" where
  "zf_close z =
     (if ZIP_FILECOUNT_LIMIT < int (length (filelist z)) \<or> ZIP64_LIMIT < start_dir z
         \<or> ZIP64_LIMIT < dir_size (filelist z)
      then Some (OtherException ''LargeZipFile'') else None)"

text \<open>The loop \<^verbatim>\<open>for name, contents in items\<close>; it ends at the first exception.\<close>

fun write_items ::
  "('file, 'df) libs \<Rightarrow> zip_file \<Rightarrow> (string \<times> string) list \<Rightarrow> zip_file \<times> exn option" where
  "write_items lb z [] = (z, None)"
| "write_items lb z ((name, contents) # items) =
     (case writestr lb z name contents of
        Inl err \<Rightarrow> (z, Some err)
      | Inr z1 \<Rightarrow> write_items lb z1 items)"

text \<open>
  \<^verbatim>\<open>_zip_items\<close>. The \<^verbatim>\<open>with\<close> statement closes the archive also when its body
  raised, and an exception of \<^verbatim>\<open>close\<close> then takes the place of the one of the body.
  Under \<^verbatim>\<open>@st.cache_data\<close> a later call with the same items returns a copy of the
  archive built before, which is the archive the body would build again.
\<close>

definition u_zip_items :: "('file, 'df) libs \<Rightarrow> (string \<times> string) list \<Rightarrow> exn + archive" where
  "u_zip_items lb items =
     (let (z, raised) = write_items lb \<lparr>filelist = [], start_dir = 0\<rparr> items;
          (z1, raised1) =
            (case raised of
               Some err \<Rightarrow> (z, Some err)
             | None \<Rightarrow>
                 (case zf_write lb z ''README.txt'' (readme_txt lb) of
                    Inl err \<Rightarrow> (z, Some err)
                  | Inr z2 \<Rightarrow> (z2, None)))
      in case zf_close z1 of
           Some err \<Rightarrow> Inl err
         | None \<Rightarrow> (case raised1 of Some err \<Rightarrow> Inl err | None \<Rightarrow> Inr (filelist z1)))"

subsection \<open>Logger\<close>

record logger =
  loglines :: "string list"

text \<open>
  \<open>Logger_log c self message to_screen\<close>: \<open>c\<close> is the container that is current when
  the method is called; \<open>to_screen\<close> defaults to \<open>True\<close>.
\<close>

definition Logger_log ::
  "container \<Rightarrow> logger \<Rightarrow> string \<Rightarrow> bool option \<Rightarrow> logger \<times> ('file, 'df) effect list" where
  "Logger_log c self message to_screen =
     (let s = py_default True to_screen
      in (self\<lparr>loglines := loglines self @ [message]\<rparr>,
          Call_log message s # (if s then [St_write c message] else [])))"

definition Logger_init :: "container \<Rightarrow> string \<Rightarrow> logger \<times> ('file, 'df) effect list" where
  "Logger_init c today = Logger_log c \<lparr>loglines = []\<rparr> (''Date: '' @ today) (Some False)"

definition Logger_to_file :: "logger \<Rightarrow> string" where
  "Logger_to_file self = join newline (loglines self)"

text \<open>
  The callback \<^verbatim>\<open>logger=es_log.log\<close> at work: the core calls it with one argument
  for each of its messages.
\<close>

fun logger_calls ::
  "container \<Rightarrow> logger \<Rightarrow> string list \<Rightarrow> logger \<times> ('file, 'df) effect list" where
  "logger_calls c lg [] = (lg, [])"
| "logger_calls c lg (m # ms) =
     (let (lg1, es1) = Logger_log c lg m None;
          (lg2, es2) = logger_calls c lg1 ms
      in (lg2, es1 @ es2))"

subsection \<open>State that outlives a run\<close>

text \<open>
  Streamlit runs the whole script again, from the top, for every interaction of every
  browser session (the source speaks of ``reruns'', guards the initialisation of
  \<^verbatim>\<open>st.session_state\<close> and decorates its functions with Streamlit's caches for
  this reason). Three things outlive a run:
  \<^item> \<open>heap\<close>: the frames the process has loaded; a reference is an index into it, and
    the script has no statement that writes into a frame;
  \<^item> \<open>es_w_cache\<close>: the entry of \<^verbatim>\<open>@st.cache_resource\<close> for \<^verbatim>\<open>_get_es_w\<close>, shared
    by all sessions; it holds the reference that the first call returned;
  \<^item> \<open>session_state\<close>: the key \<^verbatim>\<open>uploaded\<close> of \<^verbatim>\<open>st.session_state\<close>, for each
    session; \<open>None\<close> when the key is absent.
\<close>

record 'df world =
  heap :: "'df list"
  es_w_cache :: "nat option"
  session_state :: "nat \<Rightarrow> bool option"

definition world0 :: "'df world" where
  "world0 = \<lparr>heap = [], es_w_cache = None, session_state = (\<lambda>_. None)\<rparr>"

text \<open>
  What a run reads from outside: the session it belongs to, the file in the uploader
  (if any), the user's setting of the rollup toggle (if any), and
  \<^verbatim>\<open>str(date.today())\<close>.
\<close>

record 'file rerun =
  session_id :: nat
  abd_file :: "'file option"
  rollup_toggle :: "bool option"
  today :: string

subsection \<open>Wrapper functions\<close>

text \<open>
  \<^verbatim>\<open>_get_es_w\<close> under \<^verbatim>\<open>@st.cache_resource\<close>: the body runs when the cache is
  empty, and its result is stored; later calls return the stored object itself.
\<close>

definition u_get_es_w :: "nat option \<Rightarrow> nat \<Rightarrow> nat \<times> nat option" where
  "u_get_es_w cache ES_W_MATRIX =
     (case cache of
        Some r \<Rightarrow> (r, cache)
      | None \<Rightarrow> (ES_W_MATRIX, Some ES_W_MATRIX))"

text \<open>
  \<^verbatim>\<open>_transform_table(abd, family_rollup=True)\<close>. The result is the cache, the logger
  after the core's messages, the calls made, and what the core raised or returned.
\<close>

definition u_transform_table ::
  "('file, 'df) libs \<Rightarrow> 'df list \<Rightarrow> nat option \<Rightarrow> nat \<Rightarrow> container \<Rightarrow> logger \<Rightarrow>
   'df \<Rightarrow> bool option \<Rightarrow>
   nat option \<times> logger \<times> ('file, 'df) effect list \<times> (exn + 'df decomposition)" where
  "u_transform_table lb hp cache ES_W_MATRIX c es_log abd family_rollup =
     (let (es_w, cache1) = u_get_es_w cache ES_W_MATRIX;
          args = \<lparr>abundance = abd, rollup = py_default True family_rollup,
                  model_w = es_w, hard_mapping = []\<rparr>;
          (msgs, res) = transform_table lb hp args;
          (es_log1, shown) = logger_calls c es_log msgs
      in (cache1, es_log1, Call_transform_table args # shown, res))"

subsection \<open>App content\<close>

definition hide_streamlit_style :: string where
  "hide_streamlit_style =
     newline @ ''<style>'' @ newline @
     ''    #root > div:nth-child(1) > div > div > div > div > section > div {padding-top: 0rem;}'' @ newline @
     ''    div[data-testid=column] {valign: middle}'' @ newline @
     ''</style>'' @ newline @ newline"

definition es_colors :: "(string \<times> string) list" where
  "es_colors =
     [(''ES_Esch'', ''#483838''), (''ES_Bifi'', ''#009E73''), (''ES_Bact'', ''#E69F00''),
      (''ES_Prev'', ''#D55E00''), (''ES_Firm'', ''#023e8a'')]"

text \<open>The list the script passes to \<^verbatim>\<open>_zip_items\<close>.\<close>

definition results_items ::
  "('file, 'df) libs \<Rightarrow> 'df decomposition \<Rightarrow> logger \<Rightarrow> (string \<times> string) list" where
  "results_items lb transformed es_log =
     [(''w.tsv'', to_csv lb (dec_w transformed) tab),
      (''h.tsv'', to_csv lb (dec_h transformed) tab),
      (''w_scaled.tsv'', to_csv lb (scaled_w transformed) tab),
      (''h_scaled.tsv'', to_csv lb (scaled_h transformed) tab),
      (''x.tsv'', to_csv lb (parameters_x transformed) tab),
      (''model_fit.tsv'', to_csv lb (model_fit transformed) tab),
      (''quality_measures.tsv'', to_csv lb (quality_series transformed) tab),
      (''primary_signatures.tsv'', to_csv lb (primary_signature transformed) tab),
      (''representative_signatures.tsv'',
         to_csv lb (representative_signatures transformed) tab),
      (''monodominant_samples.tsv'', to_csv lb (monodominant_samples transformed) tab),
      (''taxon_mapping.tsv'', to_csv lb (feature_mapping transformed) tab),
      (''log.txt'', Logger_to_file es_log)]"

text \<open>
  A sequence of library calls: they are made one after the other until one raises; the
  result is the calls made, the raising one last, and the exception.
\<close>

fun run_calls ::
  "('file, 'df) libs \<Rightarrow> ('file, 'df) effect list \<Rightarrow> ('file, 'df) effect list \<times> exn option" where
  "run_calls lb [] = ([], None)"
| "run_calls lb (e # es) =
     (case raises lb e of
        Some err \<Rightarrow> ([e], Some err)
      | None \<Rightarrow> (let (made, raised) = run_calls lb es in (e # made, raised)))"

text \<open>
  The library calls that compute the list above, in the order Python evaluates them:
  for each entry the read of the decomposition and then \<^verbatim>\<open>to_csv\<close>.
  \<^verbatim>\<open>es_log.to_file()\<close> is the script's own and returns.
\<close>

definition items_calls :: "'df decomposition \<Rightarrow> ('file, 'df) effect list" where
  "items_calls transformed =
     [Dec_get transformed ''w'', To_csv (dec_w transformed) tab,
      Dec_get transformed ''h'', To_csv (dec_h transformed) tab,
      Dec_get transformed ''scaled(w)'', To_csv (scaled_w transformed) tab,
      Dec_get transformed ''scaled(h)'', To_csv (scaled_h transformed) tab,
      Dec_get transformed ''parameters.x'', To_csv (parameters_x transformed) tab,
      Dec_get transformed ''model_fit'', To_csv (model_fit transformed) tab,
      Dec_get transformed ''quality_series'', To_csv (quality_series transformed) tab,
      Dec_get transformed ''primary_signature'', To_csv (primary_signature transformed) tab,
      Dec_get transformed ''representative_signatures()'',
      To_csv (representative_signatures transformed) tab,
      Dec_get transformed ''monodominant_samples()'',
      To_csv (monodominant_samples transformed) tab,
      Dec_get transformed ''feature_mapping.to_df()'',
      To_csv (feature_mapping transformed) tab]"

text \<open>
  The calls of the block \<^verbatim>\<open>with expander_results:\<close>, up to the assignment of the
  flag. The PCoA plot is in the list when \<^verbatim>\<open>transformed.h.shape[1] < 500\<close>.
\<close>

definition results_block ::
  "('file, 'df) libs \<Rightarrow> 'df decomposition \<Rightarrow> archive \<Rightarrow> ('file, 'df) effect list" where
  "results_block lb transformed res_zip =
     [St_download_button Expander_results (DOWNLOAD_LABEL (text_py lb)) res_zip
        ''apply_es_results.zip'',
      St_markdown Expander_results (RESULTS (text_py lb)) False,
      St_markdown Expander_results (WEIGHT_PLOT_TITLE (text_py lb)) False,
      St_markdown Expander_results (WEIGHT_PLOT_CAPTION (text_py lb)) False,
      St_write_plot Expander_results Plot_relative_weight,
      St_markdown Expander_results (MODELFIT_PLOT_TITLE (text_py lb)) False,
      St_write_plot Expander_results Plot_modelfit,
      St_markdown Expander_results (PCOA_PLOT_TITLE (text_py lb)) False,
      Dec_get transformed ''h'',
      Get_shape (dec_h transformed)]
     @ (if snd (shape lb (dec_h transformed)) < 500
        then [St_write_plot Expander_results Plot_pcoa] else [])"

text \<open>\<^verbatim>\<open>except EnteroException as err\<close>; any other exception is not caught.\<close>

definition except_clause :: "exn \<Rightarrow> ('file, 'df) effect list" where
  "except_clause err =
     (case err of
        EnteroException m \<Rightarrow> [St_write Page (''Unable to transform: '' @ m)]
      | OtherException m \<Rightarrow> [Uncaught err])"

text \<open>
  The rest of the \<^verbatim>\<open>try\<close> once the core has returned \<open>d\<close>: the assignment of the
  colours, the list of items, \<^verbatim>\<open>_zip_items\<close>, the results block and the assignment
  of the flag. Each call may raise, and the exception goes to the \<^verbatim>\<open>except\<close> clause.
  The result is the calls made and whether the assignment of the flag was reached.
\<close>

definition after_transform ::
  "('file, 'df) libs \<Rightarrow> logger \<Rightarrow> 'df decomposition \<Rightarrow> ('file, 'df) effect list \<times> bool" where
  "after_transform lb es_log d =
     (let transformed = d\<lparr>colors := es_colors\<rparr>
      in case run_calls lb (Set_colors d es_colors # items_calls transformed) of
           (made, Some err) \<Rightarrow> (made @ except_clause err, False)
         | (made, None) \<Rightarrow>
             (let items = results_items lb transformed es_log
              in case u_zip_items lb items of
                   Inl err \<Rightarrow> (made @ Call_zip_items items # except_clause err, False)
                 | Inr res_zip \<Rightarrow>
                     (case run_calls lb (results_block lb transformed res_zip) of
                        (drawn, Some err) \<Rightarrow>
                          (made @ Call_zip_items items # drawn @ except_clause err, False)
                      | (drawn, None) \<Rightarrow>
                          (made @ Call_zip_items items # drawn, True))))"

text \<open>
  The body of \<^verbatim>\<open>if abd_file is not None\<close>. The result is the cache, the calls made,
  and whether \<^verbatim>\<open>st.session_state.uploaded = True\<close> was reached.
\<close>

definition upload_block ::
  "('file, 'df) libs \<Rightarrow> 'df list \<Rightarrow> nat option \<Rightarrow> nat \<Rightarrow> logger \<Rightarrow> 'file \<Rightarrow> bool \<Rightarrow>
   nat option \<times> ('file, 'df) effect list \<times> bool" where
  "upload_block lb hp cache ES_W_MATRIX es_log file opt_rollup =
     (case read_csv lb file tab 0 of
        Inl err \<Rightarrow> (cache, Call_read_csv file tab 0 # except_clause err, False)
      | Inr abd_tbl \<Rightarrow>
          (case u_transform_table lb hp cache ES_W_MATRIX Expander_log es_log abd_tbl
                  (Some opt_rollup) of
             (cache1, es_log1, called, Inl err) \<Rightarrow>
               (cache1, Call_read_csv file tab 0 # called @ except_clause err, False)
           | (cache1, es_log1, called, Inr d) \<Rightarrow>
               (let (made, reached) = after_transform lb es_log1 d
                in (cache1, Call_read_csv file tab 0 # called @ made, reached))))"

text \<open>The part of the script that runs whether or not a file is there.\<close>

definition page_head ::
  "('file, 'df) libs \<Rightarrow> nat \<Rightarrow> ('file, 'df) effect list \<Rightarrow> bool \<Rightarrow> ('file, 'df) effect list" where
  "page_head lb ES_W_MATRIX logged uploaded =
     [St_markdown Page hide_streamlit_style True, Load_five_es ES_W_MATRIX] @ logged @
     [St_title (TITLE (text_py lb)),
      St_columns [(8, 10), (2, 10)],
      St_file_uploader Col_upload (UPLOAD_LABEL (text_py lb)) (UPLOAD_TOOLTIP (text_py lb)),
      St_markdown Col_opts
        (''<div style='' @ [CHR 0x22] @ ''height: 0.5ex'' @ [CHR 0x22] @ ''>&nbsp</div>'') True,
      St_toggle Col_opts (ROLLUP_LABEL (text_py lb)) True (ROLLUP_TOOLTIP (text_py lb)),
      St_expander (EXPANDER_UPLOAD (text_py lb)) (\<not> uploaded),
      St_expander (EXPANDER_LOG (text_py lb)) uploaded,
      St_expander (EXPANDER_RESULTS (text_py lb)) uploaded,
      St_markdown Expander_upload (SUMMARY (text_py lb)) False,
      St_markdown Expander_upload (INPUT_FORMAT (text_py lb)) False,
      St_markdown Expander_upload (CAVEATS (text_py lb)) False]"

text \<open>
  One run of the script. The calls before the \<^verbatim>\<open>try\<close> are taken to return.
  \<open>flag0\<close> is \<^verbatim>\<open>st.session_state.uploaded\<close> after the guarded
  initialisation; the run ends with the flag set if the last statement of the
  \<^verbatim>\<open>try\<close> was reached, and as it was otherwise.
\<close>

definition script ::
  "('file, 'df) libs \<Rightarrow> 'file rerun \<Rightarrow> 'df world \<Rightarrow> 'df world \<times> ('file, 'df) effect list" where
  "script lb i wld =
     (let ES_W_MATRIX = length (heap wld);
          hp = heap wld @ [five_es lb];
          (es_log, logged) = Logger_init Page (today i);
          flag0 = (case session_state wld (session_id i) of None \<Rightarrow> False | Some b \<Rightarrow> b);
          opt_rollup = st_toggle True (rollup_toggle i);
          uploaded = (abd_file i \<noteq> None);
          (cache1, done, reached) =
            (case abd_file i of
               None \<Rightarrow> (es_w_cache wld, [], False)
             | Some file \<Rightarrow>
                 upload_block lb hp (es_w_cache wld) ES_W_MATRIX es_log file opt_rollup)
      in (\<lparr>heap = hp, es_w_cache = cache1,
           session_state = (session_state wld)(session_id i := Some (reached \<or> flag0))\<rparr>,
          page_head lb ES_W_MATRIX logged uploaded @ done))"

text \<open>The runs of a process, one after the other.\<close>

fun reruns ::
  "('file, 'df) libs \<Rightarrow> 'df world \<Rightarrow> 'file rerun list \<Rightarrow> 'df world \<times> ('file, 'df) effect list" where
  "reruns lb wld [] = (wld, [])"
| "reruns lb wld (i # is) =
     (let (wld1, es1) = script lb i wld;
          (wld2, es2) = reruns lb wld1 is
      in (wld2, es1 @ es2))"

subsection \<open>Reading the list of calls\<close>

fun is_zip :: "('file, 'df) effect \<Rightarrow> bool" where
  "is_zip (Call_zip_items items) = True"
| "is_zip _ = False"

fun is_download :: "('file, 'df) effect \<Rightarrow> bool" where
  "is_download (St_download_button c label z file_name) = True"
| "is_download _ = False"

fun is_plot :: "('file, 'df) effect \<Rightarrow> bool" where
  "is_plot (St_write_plot c p) = True"
| "is_plot _ = False"

text \<open>The archives offered for download, the messages passed to \<^verbatim>\<open>Logger.log\<close>, the
  objects loaded by \<^verbatim>\<open>five_es()\<close>, the arguments of the calls of \<^verbatim>\<open>pd.read_csv\<close>,
  the plots written, and the arguments of the calls of the core.\<close>

fun offered :: "('file, 'df) effect list \<Rightarrow> archive list" where
  "offered [] = []"
| "offered (St_download_button c label z file_name # es) = z # offered es"
| "offered (e # es) = offered es"

fun logged_messages :: "('file, 'df) effect list \<Rightarrow> string list" where
  "logged_messages [] = []"
| "logged_messages (Call_log message to_screen # es) = message # logged_messages es"
| "logged_messages (e # es) = logged_messages es"

fun loads :: "('file, 'df) effect list \<Rightarrow> nat list" where
  "loads [] = []"
| "loads (Load_five_es r # es) = r # loads es"
| "loads (e # es) = loads es"

fun read_calls :: "('file, 'df) effect list \<Rightarrow> ('file \<times> string \<times> nat) list" where
  "read_calls [] = []"
| "read_calls (Call_read_csv file sep index_col # es) = (file, sep, index_col) # read_calls es"
| "read_calls (e # es) = read_calls es"

fun plots :: "('file, 'df) effect list \<Rightarrow> (container \<times> plot) list" where
  "plots [] = []"
| "plots (St_write_plot c p # es) = (c, p) # plots es"
| "plots (e # es) = plots es"

fun core_calls :: "('file, 'df) effect list \<Rightarrow> 'df transform_args list" where
  "core_calls [] = []"
| "core_calls (Call_transform_table args # es) = args # core_calls es"
| "core_calls (e # es) = core_calls es"

text \<open>
  \<open>tried es\<close> are the calls made inside the \<^verbatim>\<open>try\<close>, which starts with the call of
  \<^verbatim>\<open>pd.read_csv\<close>.
\<close>

fun tried :: "('file, 'df) effect list \<Rightarrow> ('file, 'df) effect list" where
  "tried [] = []"
| "tried (Call_read_csv file sep index_col # es) = Call_read_csv file sep index_col # es"
| "tried (e # es) = tried es"

text \<open>
  \<open>call_raises lb hp err e\<close>: the call \<open>e\<close>, made inside the \<^verbatim>\<open>try\<close>, raises \<open>err\<close>;
  \<open>call_fails lb hp e\<close>: it raises some exception; \<open>call_returns lb hp d e\<close>: \<open>e\<close> is a
  call of the core that returns \<open>d\<close>. \<open>hp\<close> is the heap at the time of the call.
  What the \<^verbatim>\<open>except\<close> clause writes and what the logger writes are not calls of the
  \<^verbatim>\<open>try\<close> itself.
\<close>

fun call_raises ::
  "('file, 'df) libs \<Rightarrow> 'df list \<Rightarrow> exn \<Rightarrow> ('file, 'df) effect \<Rightarrow> bool" where
  "call_raises lb hp err (Call_read_csv file sep index_col) =
     (read_csv lb file sep index_col = Inl err)"
| "call_raises lb hp err (Call_transform_table args) =
     (snd (transform_table lb hp args) = Inl err)"
| "call_raises lb hp err (Call_zip_items items) = (u_zip_items lb items = Inl err)"
| "call_raises lb hp err (Set_colors d cs) = (raises lb (Set_colors d cs) = Some err)"
| "call_raises lb hp err (Dec_get d a) = (raises lb (Dec_get d a) = Some err)"
| "call_raises lb hp err (To_csv df sep) = (raises lb (To_csv df sep) = Some err)"
| "call_raises lb hp err (Get_shape df) = (raises lb (Get_shape df) = Some err)"
| "call_raises lb hp err (St_download_button c label z file_name) =
     (raises lb (St_download_button c label z file_name) = Some err)"
| "call_raises lb hp err (St_markdown c body html) =
     (raises lb (St_markdown c body html) = Some err)"
| "call_raises lb hp err (St_write_plot c p) = (raises lb (St_write_plot c p) = Some err)"
| "call_raises lb hp err _ = False"

fun call_fails :: "('file, 'df) libs \<Rightarrow> 'df list \<Rightarrow> ('file, 'df) effect \<Rightarrow> bool" where
  "call_fails lb hp (Call_read_csv file sep index_col) = isl (read_csv lb file sep index_col)"
| "call_fails lb hp (Call_transform_table args) = isl (snd (transform_table lb hp args))"
| "call_fails lb hp (Call_zip_items items) = isl (u_zip_items lb items)"
| "call_fails lb hp (Set_colors d cs) = (raises lb (Set_colors d cs) \<noteq> None)"
| "call_fails lb hp (Dec_get d a) = (raises lb (Dec_get d a) \<noteq> None)"
| "call_fails lb hp (To_csv df sep) = (raises lb (To_csv df sep) \<noteq> None)"
| "call_fails lb hp (Get_shape df) = (raises lb (Get_shape df) \<noteq> None)"
| "call_fails lb hp (St_download_button c label z file_name) =
     (raises lb (St_download_button c label z file_name) \<noteq> None)"
| "call_fails lb hp (St_markdown c body html) = (raises lb (St_markdown c body html) \<noteq> None)"
| "call_fails lb hp (St_write_plot c p) = (raises lb (St_write_plot c p) \<noteq> None)"
| "call_fails lb hp _ = False"

fun call_returns ::
  "('file, 'df) libs \<Rightarrow> 'df list \<Rightarrow> 'df decomposition \<Rightarrow> ('file, 'df) effect \<Rightarrow> bool" where
  "call_returns lb hp d (Call_transform_table args) =
     (snd (transform_table lb hp args) = Inr d)"
| "call_returns lb hp d _ = False"

text \<open>
  The calls of the \<^verbatim>\<open>try\<close> that come before \<^verbatim>\<open>_zip_items\<close> is called: reading the
  table, the transformation, the assignment of the colours and the computation of the
  items.
\<close>

fun before_zip :: "('file, 'df) effect \<Rightarrow> bool" where
  "before_zip (Call_read_csv file sep index_col) = True"
| "before_zip (Call_transform_table args) = True"
| "before_zip (Set_colors d cs) = True"
| "before_zip (Dec_get d a) = True"
| "before_zip (To_csv df sep) = True"
| "before_zip _ = False"

text \<open>
  What \<^verbatim>\<open>zipfile\<close> accepts, in closed form: the entries as they are stored, the bytes
  they take up to the central directory, and the conditions on a list of entries under
  which no write and not the closing raises.
\<close>

definition entries_of :: "('file, 'df) libs \<Rightarrow> (string \<times> string) list \<Rightarrow> archive" where
  "entries_of lb items =
     map (\<lambda>(name, contents). (cut_nul name, contents)) items
     @ [(''README.txt'', readme_txt lb)]"

definition stored_size :: "('file, 'df) libs \<Rightarrow> archive \<Rightarrow> int" where
  "stored_size lb entries =
     sum_list (map (\<lambda>(name, contents).
                      30 + int (length name) + int (deflated_size lb contents)) entries)"

definition entry_ok :: "('file, 'df) libs \<Rightarrow> string \<times> string \<Rightarrow> bool" where
  "entry_ok lb e =
     (fst e \<noteq> [] \<and> int (length (fst e)) \<le> 65535
      \<and> 105 * int (length (snd e)) \<le> 100 * ZIP64_LIMIT
      \<and> int (deflated_size lb (snd e)) \<le> ZIP64_LIMIT)"

definition zip_accepts :: "('file, 'df) libs \<Rightarrow> archive \<Rightarrow> bool" where
  "zip_accepts lb entries =
     (list_all (entry_ok lb) entries \<and> int (length entries) \<le> ZIP_FILECOUNT_LIMIT
      \<and> stored_size lb entries \<le> ZIP64_LIMIT \<and> dir_size entries \<le> ZIP64_LIMIT)"

subsection \<open>An instance of the libraries\<close>

text \<open>
  To evaluate the script on concrete runs, the libraries are instantiated: a file is the
  table it holds (or nothing, when it cannot be parsed), a frame is a list of rows of
  cells, the core fails on a table that has no row, no other call raises, and the
  compressor leaves the size as it is.
\<close>

definition sample_text :: text_module where
  "sample_text =
     \<lparr>TITLE = ''T'', UPLOAD_LABEL = ''U'', UPLOAD_TOOLTIP = ''u'', ROLLUP_LABEL = ''R'',
      ROLLUP_TOOLTIP = ''r'', EXPANDER_UPLOAD = ''E1'', EXPANDER_LOG = ''E2'',
      EXPANDER_RESULTS = ''E3'', SUMMARY = ''S'', INPUT_FORMAT = ''I'', CAVEATS = ''C'',
      DOWNLOAD_LABEL = ''D'', RESULTS = ''Rs'', WEIGHT_PLOT_TITLE = ''W'',
      WEIGHT_PLOT_CAPTION = ''Wc'', MODELFIT_PLOT_TITLE = ''M'', PCOA_PLOT_TITLE = ''P''\<rparr>"

definition sample_core ::
  "string list list list \<Rightarrow> string list list transform_args \<Rightarrow>
   string list \<times> (exn + string list list decomposition)" where
  "sample_core hp args =
     (if abundance args = []
      then ([''start''], Inl (EnteroException ''no taxa''))
      else ([''start'', ''done''],
            Inr \<lparr>dec_w = hp ! model_w args, dec_h = [[''h1'', ''h2'']],
                 scaled_w = [[''sw'']], scaled_h = [[''sh'']],
                 parameters_x = abundance args,
                 model_fit = [[''f'']], quality_series = [[''q'']],
                 primary_signature = [[''p'']], representative_signatures = [[''r'']],
                 monodominant_samples = [[''m'']], feature_mapping = [[''t'']],
                 colors = []\<rparr>))"

definition sample_libs :: "(string list list option, string list list) libs" where
  "sample_libs =
     \<lparr>five_es = [[''w'']],
      read_csv = (\<lambda>file sep index_col.
                    case file of None \<Rightarrow> Inl (OtherException ''ParserError'')
                    | Some rows \<Rightarrow> Inr rows),
      to_csv = (\<lambda>df sep. join newline (map (join sep) df)),
      shape = (\<lambda>df. (length df, case df of [] \<Rightarrow> 0 | r # _ \<Rightarrow> length r)),
      transform_table = sample_core,
      raises = (\<lambda>e. None),
      deflated_size = length,
      readme_txt = ''read me'',
      text_py = sample_text\<rparr>"

text \<open>Three runs: without a file, with a good table, and with a table the core rejects.\<close>

definition run_idle :: "string list list option rerun" where
  "run_idle = \<lparr>session_id = 0, abd_file = None, rollup_toggle = None, today = ''2024-01-01''\<rparr>"

definition run_good :: "string list list option rerun" where
  "run_good =
     \<lparr>session_id = 0, abd_file = Some (Some [[''a'', ''1'']]), rollup_toggle = None,
      today = ''2024-01-01''\<rparr>"

definition run_bad :: "string list list option rerun" where
  "run_bad =
     \<lparr>session_id = 0, abd_file = Some (Some []), rollup_toggle = Some False,
      today = ''2024-01-01''\<rparr>"


definition sample_wide :: "nat \<Rightarrow> (string list list option, string list list) libs" where
  "sample_wide n = sample_libs\<lparr>shape := (\<lambda>df. (5, n))\<rparr>"

definition sample_result :: "string list list decomposition" where
  "sample_result =
     \<lparr>dec_w = [[''w'']], dec_h = [[''h1'', ''h2'']],
      scaled_w = [[''sw'']], scaled_h = [[''sh'']],
      parameters_x = [[''a'', ''1'']],
      model_fit = [[''f'']], quality_series = [[''q'']],
      primary_signature = [[''p'']], representative_signatures = [[''r'']],
      monodominant_samples = [[''m'']], feature_mapping = [[''t'']],
      colors = []\<rparr>"

subsection \<open>The override step of the core\<close>

text \<open>
  Modelled from the spec: the resolution of one input label by the TaxonomicReconciler
  (spec 4.1 and 6), whose code is \<^verbatim>\<open>cvanmf.reapply\<close> and is not among the sources.
  The override table is optional and empty by default; a label it maps is resolved to
  that reference taxon first and unconditionally; any other label is resolved by the
  computed match (direct or after rollup), which is a parameter here.
\<close>

definition resolve_label ::
  "(string \<times> string) list option \<Rightarrow> (string \<Rightarrow> string option) \<Rightarrow> string \<Rightarrow> string option" where
  "resolve_label hm computed label =
     (case map_of (py_default [] hm) label of
        Some taxon \<Rightarrow> Some taxon
      | None \<Rightarrow> computed label)"

subsection \<open>Names for the parts of a run\<close>

text \<open>
  The lemmas below describe the list of calls of a run piece by piece. \<open>shown c ms\<close>
  are the calls that the core's messages \<open>ms\<close> cause through the callback;
  \<open>core_args\<close> and \<open>args_of\<close> are the arguments the wrapper passes to the core;
  \<open>flag0\<close> is the flag after the guarded initialisation; \<open>head_of\<close> are the calls
  before the upload is looked at; \<open>log_of\<close> is the logger after the core's messages;
  \<open>archive_of lb d msgs\<close> is the archive of a run whose core returned \<open>d\<close> and whose
  logger holds the messages \<open>msgs\<close>.
\<close>

definition shown :: "container \<Rightarrow> string list \<Rightarrow> ('file, 'df) effect list" where
  "shown c ms = concat (map (\<lambda>m. [Call_log m True, St_write c m]) ms)"

definition core_args :: "nat option \<Rightarrow> nat \<Rightarrow> 'df \<Rightarrow> bool \<Rightarrow> 'df transform_args" where
  "core_args cache r abd_tbl opt =
     \<lparr>abundance = abd_tbl, rollup = opt, model_w = fst (u_get_es_w cache r), hard_mapping = []\<rparr>"

definition flag0 :: "'df world \<Rightarrow> nat \<Rightarrow> bool" where
  "flag0 wld sid = (case session_state wld sid of None \<Rightarrow> False | Some b \<Rightarrow> b)"

definition head_of ::
  "('file, 'df) libs \<Rightarrow> 'file rerun \<Rightarrow> 'df world \<Rightarrow> ('file, 'df) effect list" where
  "head_of lb i wld =
     page_head lb (length (heap wld)) [Call_log (''Date: '' @ today i) False]
       (abd_file i \<noteq> None)"

definition args_of ::
  "'file rerun \<Rightarrow> 'df world \<Rightarrow> 'df \<Rightarrow> 'df transform_args" where
  "args_of i wld abd_tbl =
     core_args (es_w_cache wld) (length (heap wld)) abd_tbl (st_toggle True (rollup_toggle i))"

definition log_of :: "'file rerun \<Rightarrow> string list \<Rightarrow> logger" where
  "log_of i msgs = \<lparr>loglines = (''Date: '' @ today i) # msgs\<rparr>"

definition archive_of ::
  "('file, 'df) libs \<Rightarrow> 'df decomposition \<Rightarrow> string list \<Rightarrow> archive" where
  "archive_of lb d msgs =
     [(''w.tsv'', to_csv lb (dec_w d) tab),
      (''h.tsv'', to_csv lb (dec_h d) tab),
      (''w_scaled.tsv'', to_csv lb (scaled_w d) tab),
      (''h_scaled.tsv'', to_csv lb (scaled_h d) tab),
      (''x.tsv'', to_csv lb (parameters_x d) tab),
      (''model_fit.tsv'', to_csv lb (model_fit d) tab),
      (''quality_measures.tsv'', to_csv lb (quality_series d) tab),
      (''primary_signatures.tsv'', to_csv lb (primary_signature d) tab),
      (''representative_signatures.tsv'', to_csv lb (representative_signatures d) tab),
      (''monodominant_samples.tsv'', to_csv lb (monodominant_samples d) tab),
      (''taxon_mapping.tsv'', to_csv lb (feature_mapping d) tab),
      (''log.txt'', join newline msgs),
      (''README.txt'', readme_txt lb)]"

text \<open>
  For the proofs about \<^verbatim>\<open>zipfile\<close>: the state after an entry has been appended, and
  the condition under which the entries \<open>es\<close> can be written one after the other to
  the open archive \<open>z\<close>.
\<close>

definition advance :: "('file, 'df) libs \<Rightarrow> zip_file \<Rightarrow> string \<times> string \<Rightarrow> zip_file" where
  "advance lb z e =
     \<lparr>filelist = filelist z @ [e],
      start_dir = start_dir z + 30 + int (length (fst e)) + int (deflated_size lb (snd e))\<rparr>"

fun writable :: "('file, 'df) libs \<Rightarrow> zip_file \<Rightarrow> archive \<Rightarrow> bool" where
  "writable lb z [] = True"
| "writable lb z (e # es) =
     (entry_ok lb e \<and> int (length (filelist z)) < ZIP_FILECOUNT_LIMIT
      \<and> start_dir z \<le> ZIP64_LIMIT \<and> writable lb (advance lb z e) es)"

definition cut_names :: "(string \<times> string) list \<Rightarrow> archive" where
  "cut_names items = map (\<lambda>(name, contents). (cut_nul name, contents)) items"

text \<open>
  \<open>prep_calls d\<close> are the library calls between the return of the core and the call
  of \<^verbatim>\<open>_zip_items\<close>.
\<close>

definition prep_calls :: "'df decomposition \<Rightarrow> ('file, 'df) effect list" where
  "prep_calls d = Set_colors d es_colors # items_calls (d\<lparr>colors := es_colors\<rparr>)"

text \<open>The calls for which the libraries' \<open>raises\<close> is asked.\<close>

fun asked :: "('file, 'df) effect \<Rightarrow> bool" where
  "asked (Set_colors d cs) = True"
| "asked (Dec_get d a) = True"
| "asked (To_csv df sep) = True"
| "asked (Get_shape df) = True"
| "asked (St_download_button c label z file_name) = True"
| "asked (St_markdown c body html) = True"
| "asked (St_write_plot c p) = True"
| "asked _ = False"

section \<open>Properties\<close>

subsection \<open>The archive\<close>

lemma zf_open_write_Inr_iff:
  assumes "filename \<noteq> []"
  shows "zf_open_write lb z filename data = Inr z1 \<longleftrightarrow>
           entry_ok lb (filename, data) \<and> int (length (filelist z)) < ZIP_FILECOUNT_LIMIT
           \<and> start_dir z \<le> ZIP64_LIMIT \<and> z1 = advance lb z (filename, data)"
  using assms by (auto simp: zf_open_write_def entry_ok_def advance_def)

lemma writestr_Inr_iff:
  "writestr lb z name contents = Inr z1 \<longleftrightarrow>
     entry_ok lb (cut_nul name, contents) \<and> int (length (filelist z)) < ZIP_FILECOUNT_LIMIT
     \<and> start_dir z \<le> ZIP64_LIMIT \<and> z1 = advance lb z (cut_nul name, contents)"
proof (cases "cut_nul name = []")
  case True
  then show ?thesis by (simp add: writestr_def entry_ok_def)
next
  case False
  then show ?thesis by (simp add: writestr_def zf_open_write_Inr_iff)
qed

lemma cut_names_Cons: "cut_names ((name, contents) # items) = (cut_nul name, contents) # cut_names items"
  by (simp add: cut_names_def)

lemma write_items_None_iff:
  "write_items lb z items = (z1, None) \<longleftrightarrow>
     writable lb z (cut_names items) \<and> z1 = foldl (advance lb) z (cut_names items)"
proof (induction items arbitrary: z)
  case Nil
  show ?case by (auto simp: cut_names_def)
next
  case (Cons item items)
  obtain name contents where item: "item = (name, contents)" by (cases item)
  show ?case
  proof (cases "writestr lb z name contents")
    case (Inl err)
    then have "\<not> (entry_ok lb (cut_nul name, contents)
        \<and> int (length (filelist z)) < ZIP_FILECOUNT_LIMIT \<and> start_dir z \<le> ZIP64_LIMIT)"
      using writestr_Inr_iff [of lb z name contents "advance lb z (cut_nul name, contents)"]
      by auto
    with Inl show ?thesis by (auto simp: item cut_names_Cons)
  next
    case (Inr z2)
    then have ok: "entry_ok lb (cut_nul name, contents)"
        "int (length (filelist z)) < ZIP_FILECOUNT_LIMIT" "start_dir z \<le> ZIP64_LIMIT"
        "z2 = advance lb z (cut_nul name, contents)"
      by (simp_all add: writestr_Inr_iff)
    with Inr Cons.IH [of z2] show ?thesis by (simp add: item cut_names_Cons)
  qed
qed

lemma foldl_advance:
  "filelist (foldl (advance lb) z es) = filelist z @ es"
  "start_dir (foldl (advance lb) z es) = start_dir z + stored_size lb es"
  by (induction es arbitrary: z) (simp_all add: advance_def stored_size_def case_prod_beta)

lemma writable_append:
  "writable lb z (xs @ ys) \<longleftrightarrow> writable lb z xs \<and> writable lb (foldl (advance lb) z xs) ys"
  by (induction xs arbitrary: z) auto

lemma stored_size_nonneg: "0 \<le> stored_size lb es"
  by (induction es) (simp_all add: stored_size_def case_prod_beta)

lemma stored_size_Cons:
  "stored_size lb (e # es) = 30 + int (length (fst e)) + int (deflated_size lb (snd e)) + stored_size lb es"
  by (simp add: stored_size_def case_prod_beta)

lemma writable_closed:
  "writable lb z es \<and> start_dir z + stored_size lb es \<le> ZIP64_LIMIT
     \<and> int (length (filelist z)) + int (length es) \<le> ZIP_FILECOUNT_LIMIT
   \<longleftrightarrow> list_all (entry_ok lb) es \<and> start_dir z + stored_size lb es \<le> ZIP64_LIMIT
     \<and> int (length (filelist z)) + int (length es) \<le> ZIP_FILECOUNT_LIMIT"
proof (induction es arbitrary: z)
  case Nil
  show ?case by simp
next
  case (Cons e es)
  have s: "start_dir (advance lb z e) + stored_size lb es = start_dir z + stored_size lb (e # es)"
    and l: "int (length (filelist (advance lb z e))) + int (length es)
              = int (length (filelist z)) + int (length (e # es))"
    by (simp_all add: advance_def stored_size_Cons)
  from Cons.IH [of "advance lb z e"] stored_size_nonneg [of lb es] show ?case
    unfolding s l by (auto simp: stored_size_Cons)
qed

lemma entries_of_cut_names: "entries_of lb items = cut_names items @ [(''README.txt'', readme_txt lb)]"
  by (simp add: entries_of_def cut_names_def)

lemma zip_accepts_iff_writable:
  "zip_accepts lb es \<longleftrightarrow>
     writable lb \<lparr>filelist = [], start_dir = 0\<rparr> es \<and> stored_size lb es \<le> ZIP64_LIMIT
     \<and> int (length es) \<le> ZIP_FILECOUNT_LIMIT \<and> dir_size es \<le> ZIP64_LIMIT"
  using writable_closed [of lb "\<lparr>filelist = [], start_dir = 0\<rparr>" es]
  by (auto simp: zip_accepts_def)

lemma u_zip_items_Inr_iff:
  "u_zip_items lb items = Inr a \<longleftrightarrow>
     a = entries_of lb items \<and> zip_accepts lb (entries_of lb items)"
proof -
  let ?start = "\<lparr>filelist = [], start_dir = 0\<rparr> :: zip_file"
  let ?cs = "cut_names items"
  let ?r = "(''README.txt'', readme_txt lb)"
  let ?z = "foldl (advance lb) ?start ?cs"
  obtain z raised where w: "write_items lb ?start items = (z, raised)"
    by (cases "write_items lb ?start items")
  have adv: "advance lb ?z ?r = foldl (advance lb) ?start (?cs @ [?r])"
    by simp
  have cl: "zf_close (advance lb ?z ?r) = None \<longleftrightarrow>
      int (length (?cs @ [?r])) \<le> ZIP_FILECOUNT_LIMIT
      \<and> stored_size lb (?cs @ [?r]) \<le> ZIP64_LIMIT \<and> dir_size (?cs @ [?r]) \<le> ZIP64_LIMIT"
    unfolding adv zf_close_def foldl_advance by auto
  have acc: "zip_accepts lb (entries_of lb items) \<longleftrightarrow>
      writable lb ?start ?cs \<and> writable lb ?z [?r]
      \<and> zf_close (advance lb ?z ?r) = None"
    unfolding cl entries_of_cut_names zip_accepts_iff_writable writable_append by auto
  show ?thesis
  proof (cases raised)
    case (Some err)
    with w have "\<not> writable lb ?start ?cs"
      using write_items_None_iff [of lb ?start items] by auto
    moreover from Some w have "\<forall>a. u_zip_items lb items \<noteq> Inr a"
      by (auto simp: u_zip_items_def split: option.splits)
    ultimately show ?thesis using acc by auto
  next
    case None
    with w have wr: "writable lb ?start ?cs" and z: "z = ?z"
      using write_items_None_iff [of lb ?start items z] by auto
    have rd: "zf_write lb ?z ''README.txt'' (readme_txt lb) = Inr z2 \<longleftrightarrow>
        writable lb ?z [?r] \<and> z2 = advance lb ?z ?r" for z2
      by (auto simp: zf_write_def zf_open_write_Inr_iff)
    show ?thesis
    proof (cases "zf_write lb ?z ''README.txt'' (readme_txt lb)")
      case (Inl err)
      then have "\<not> writable lb ?z [?r]"
        using rd [of "advance lb ?z ?r"] by auto
      moreover from Inl w None z have "\<forall>a. u_zip_items lb items \<noteq> Inr a"
        by (auto simp: u_zip_items_def split: option.splits)
      ultimately show ?thesis using acc by auto
    next
      case (Inr z2)
      then have r: "writable lb ?z [?r]" and z2: "z2 = advance lb ?z ?r"
        using rd [of z2] by auto
      have fl: "filelist z2 = entries_of lb items"
        by (simp add: z2 advance_def foldl_advance entries_of_cut_names)
      from Inr w None z have "u_zip_items lb items =
          (case zf_close z2 of Some err \<Rightarrow> Inl err | None \<Rightarrow> Inr (filelist z2))"
        by (simp add: u_zip_items_def split: option.splits)
      with wr r acc fl z2 show ?thesis
        by (auto split: option.splits)
    qed
  qed
qed

subsection \<open>Sequences of calls\<close>

lemma run_calls_prefix: "\<exists>rest. cs = fst (run_calls lb cs) @ rest"
  by (induction cs) (auto simp: case_prod_beta split: option.splits)

lemma run_calls_None:
  "snd (run_calls lb cs) = None \<longleftrightarrow> (\<forall>e \<in> set cs. raises lb e = None)"
  by (induction cs) (auto simp: case_prod_beta split: option.splits)

lemma run_calls_None_made: "snd (run_calls lb cs) = None \<Longrightarrow> fst (run_calls lb cs) = cs"
  by (induction cs) (auto simp: case_prod_beta split: option.splits)

lemma run_calls_Some:
  assumes "run_calls lb cs = (made, Some err)"
  shows "\<exists>pre e rest. made = pre @ [e] \<and> cs = pre @ e # rest \<and> raises lb e = Some err
           \<and> (\<forall>x \<in> set pre. raises lb x = None)"
  using assms
proof (induction cs arbitrary: made)
  case Nil
  then show ?case by simp
next
  case (Cons c cs)
  show ?case
  proof (cases "raises lb c")
    case None
    with Cons.prems obtain made1 where m: "run_calls lb cs = (made1, Some err)" "made = c # made1"
      by (auto simp: case_prod_beta) (metis prod.collapse)
    from Cons.IH [OF m(1)] obtain pre e rest where
      "made1 = pre @ [e]" "cs = pre @ e # rest" "raises lb e = Some err"
      "\<forall>x \<in> set pre. raises lb x = None"
      by blast
    with None m(2) have "made = (c # pre) @ [e] \<and> c # cs = (c # pre) @ e # rest
        \<and> raises lb e = Some err \<and> (\<forall>x \<in> set (c # pre). raises lb x = None)"
      by simp
    then show ?thesis by blast
  next
    case (Some err1)
    with Cons.prems have "made = [] @ [c] \<and> c # cs = [] @ c # cs \<and> raises lb c = Some err
        \<and> (\<forall>x \<in> set []. raises lb x = None)"
      by simp
    then show ?thesis by blast
  qed
qed

lemma after_transform_prep:
  "after_transform lb lg d =
     (case run_calls lb (prep_calls d) of
        (made, Some err) \<Rightarrow> (made @ except_clause err, False)
      | (made, None) \<Rightarrow>
          (case u_zip_items lb (results_items lb (d\<lparr>colors := es_colors\<rparr>) lg) of
             Inl err \<Rightarrow>
               (made @ Call_zip_items (results_items lb (d\<lparr>colors := es_colors\<rparr>) lg)
                  # except_clause err, False)
           | Inr res_zip \<Rightarrow>
               (case run_calls lb (results_block lb (d\<lparr>colors := es_colors\<rparr>) res_zip) of
                  (drawn, Some err) \<Rightarrow>
                    (made @ Call_zip_items (results_items lb (d\<lparr>colors := es_colors\<rparr>) lg)
                       # drawn @ except_clause err, False)
                | (drawn, None) \<Rightarrow>
                    (made @ Call_zip_items (results_items lb (d\<lparr>colors := es_colors\<rparr>) lg)
                       # drawn, True))))"
  by (simp only: after_transform_def prep_calls_def Let_def)

lemma after_transform_cases [case_names prep_raises zip_raises show_raises completes]:
  obtains
    (prep_raises) made err where
      "run_calls lb (prep_calls d) = (made, Some err)"
      "after_transform lb lg d = (made @ except_clause err, False)"
  | (zip_raises) err where
      "run_calls lb (prep_calls d) = (prep_calls d, None)"
      "u_zip_items lb (results_items lb (d\<lparr>colors := es_colors\<rparr>) lg) = Inl err"
      "after_transform lb lg d =
         (prep_calls d @ Call_zip_items (results_items lb (d\<lparr>colors := es_colors\<rparr>) lg)
            # except_clause err, False)"
  | (show_raises) z drawn err where
      "run_calls lb (prep_calls d) = (prep_calls d, None)"
      "u_zip_items lb (results_items lb (d\<lparr>colors := es_colors\<rparr>) lg) = Inr z"
      "run_calls lb (results_block lb (d\<lparr>colors := es_colors\<rparr>) z) = (drawn, Some err)"
      "after_transform lb lg d =
         (prep_calls d @ Call_zip_items (results_items lb (d\<lparr>colors := es_colors\<rparr>) lg)
            # drawn @ except_clause err, False)"
  | (completes) z where
      "run_calls lb (prep_calls d) = (prep_calls d, None)"
      "u_zip_items lb (results_items lb (d\<lparr>colors := es_colors\<rparr>) lg) = Inr z"
      "run_calls lb (results_block lb (d\<lparr>colors := es_colors\<rparr>) z)
         = (results_block lb (d\<lparr>colors := es_colors\<rparr>) z, None)"
      "after_transform lb lg d =
         (prep_calls d @ Call_zip_items (results_items lb (d\<lparr>colors := es_colors\<rparr>) lg)
            # results_block lb (d\<lparr>colors := es_colors\<rparr>) z, True)"
proof -
  let ?t = "d\<lparr>colors := es_colors\<rparr>"
  let ?items = "results_items lb ?t lg"
  obtain made raised where p: "run_calls lb (prep_calls d) = (made, raised)"
    by (cases "run_calls lb (prep_calls d)")
  show ?thesis
  proof (cases raised)
    case (Some err)
    with p show ?thesis
      by (intro prep_raises [of made err]) (simp_all add: after_transform_prep)
  next
    case None
    with p have m: "made = prep_calls d"
      using run_calls_None_made [of lb "prep_calls d"] by simp
    note p = p [unfolded m None]
    show ?thesis
    proof (cases "u_zip_items lb ?items")
      case (Inl err)
      with p show ?thesis
        by (intro zip_raises [of err]) (simp_all add: after_transform_prep)
    next
      case (Inr z)
      obtain drawn raised1 where r: "run_calls lb (results_block lb ?t z) = (drawn, raised1)"
        by (cases "run_calls lb (results_block lb ?t z)")
      show ?thesis
      proof (cases raised1)
        case (Some err)
        with p Inr r show ?thesis
          by (intro show_raises [of z drawn err]) (simp_all add: after_transform_prep)
      next
        case None
        with r have dr: "drawn = results_block lb ?t z"
          using run_calls_None_made [of lb "results_block lb ?t z"] by simp
        with p Inr r None show ?thesis
          by (intro completes [of z]) (simp_all add: after_transform_prep)
      qed
    qed
  qed
qed

subsection \<open>One run, case by case\<close>

lemma logger_calls_eq:
  "logger_calls c lg ms =
     (lg\<lparr>loglines := loglines lg @ ms\<rparr>, concat (map (\<lambda>m. [Call_log m True, St_write c m]) ms))"
  by (induction ms arbitrary: lg) (simp_all add: Logger_log_def py_default_def)

lemma upload_block_read_raises:
  assumes "read_csv lb file tab 0 = Inl err"
  shows "upload_block lb hp cache r lg file opt =
           (cache, Call_read_csv file tab 0 # except_clause err, False)"
  using assms by (simp add: upload_block_def)

lemma upload_block_core_raises:
  assumes "read_csv lb file tab 0 = Inr abd_tbl"
    and "transform_table lb hp (core_args cache r abd_tbl opt) = (msgs, Inl err)"
  shows "upload_block lb hp cache r lg file opt =
           (snd (u_get_es_w cache r),
            Call_read_csv file tab 0 # Call_transform_table (core_args cache r abd_tbl opt)
              # shown Expander_log msgs @ except_clause err,
            False)"
  using assms
  by (simp add: upload_block_def u_transform_table_def core_args_def py_default_def
      logger_calls_eq shown_def Let_def case_prod_beta)

lemma upload_block_core_returns:
  assumes "read_csv lb file tab 0 = Inr abd_tbl"
    and "transform_table lb hp (core_args cache r abd_tbl opt) = (msgs, Inr d)"
  shows "upload_block lb hp cache r lg file opt =
           (snd (u_get_es_w cache r),
            Call_read_csv file tab 0 # Call_transform_table (core_args cache r abd_tbl opt)
              # shown Expander_log msgs
              @ fst (after_transform lb (lg\<lparr>loglines := loglines lg @ msgs\<rparr>) d),
            snd (after_transform lb (lg\<lparr>loglines := loglines lg @ msgs\<rparr>) d))"
  using assms
  by (simp add: upload_block_def u_transform_table_def core_args_def py_default_def
      logger_calls_eq shown_def Let_def case_prod_beta)

lemma script_cases [consumes 1, case_names idle read_raises core_raises core_returns]:
  assumes run: "script lb i wld = (wld', effs)"
  obtains
    (idle) "abd_file i = None"
      "effs = head_of lb i wld"
      "wld' = \<lparr>heap = heap wld @ [five_es lb], es_w_cache = es_w_cache wld,
               session_state = (session_state wld)(session_id i := Some (flag0 wld (session_id i)))\<rparr>"
  | (read_raises) fl err where "abd_file i = Some fl"
      "read_csv lb fl tab 0 = Inl err"
      "effs = head_of lb i wld @ Call_read_csv fl tab 0 # except_clause err"
      "wld' = \<lparr>heap = heap wld @ [five_es lb], es_w_cache = es_w_cache wld,
               session_state = (session_state wld)(session_id i := Some (flag0 wld (session_id i)))\<rparr>"
  | (core_raises) fl abd_tbl msgs err where "abd_file i = Some fl"
      "read_csv lb fl tab 0 = Inr abd_tbl"
      "transform_table lb (heap wld @ [five_es lb]) (args_of i wld abd_tbl) = (msgs, Inl err)"
      "effs = head_of lb i wld @ Call_read_csv fl tab 0
                # Call_transform_table (args_of i wld abd_tbl)
                # shown Expander_log msgs @ except_clause err"
      "wld' = \<lparr>heap = heap wld @ [five_es lb],
               es_w_cache = snd (u_get_es_w (es_w_cache wld) (length (heap wld))),
               session_state = (session_state wld)(session_id i := Some (flag0 wld (session_id i)))\<rparr>"
  | (core_returns) fl abd_tbl msgs d where "abd_file i = Some fl"
      "read_csv lb fl tab 0 = Inr abd_tbl"
      "transform_table lb (heap wld @ [five_es lb]) (args_of i wld abd_tbl) = (msgs, Inr d)"
      "effs = head_of lb i wld @ Call_read_csv fl tab 0
                # Call_transform_table (args_of i wld abd_tbl)
                # shown Expander_log msgs
                @ fst (after_transform lb (log_of i msgs) d)"
      "wld' = \<lparr>heap = heap wld @ [five_es lb],
               es_w_cache = snd (u_get_es_w (es_w_cache wld) (length (heap wld))),
               session_state = (session_state wld)
                 (session_id i := Some (snd (after_transform lb (log_of i msgs) d)
                                        \<or> flag0 wld (session_id i)))\<rparr>"
proof (cases "abd_file i")
  case None
  with run have "effs = head_of lb i wld" and
    "wld' = \<lparr>heap = heap wld @ [five_es lb], es_w_cache = es_w_cache wld,
             session_state = (session_state wld)(session_id i := Some (flag0 wld (session_id i)))\<rparr>"
    by (auto simp: script_def head_of_def flag0_def Logger_init_def Logger_log_def
        py_default_def Let_def)
  with None show ?thesis by (rule idle)
next
  case (Some fl)
  let ?hp = "heap wld @ [five_es lb]"
  let ?lg = "\<lparr>loglines = [''Date: '' @ today i]\<rparr>"
  let ?opt = "st_toggle True (rollup_toggle i)"
  let ?ub = "upload_block lb ?hp (es_w_cache wld) (length (heap wld)) ?lg fl ?opt"
  from run Some have effs: "effs = head_of lb i wld @ fst (snd ?ub)"
    and wld': "wld' = \<lparr>heap = ?hp, es_w_cache = fst ?ub,
             session_state = (session_state wld)
               (session_id i := Some (snd (snd ?ub) \<or> flag0 wld (session_id i)))\<rparr>"
    by (auto simp: script_def head_of_def flag0_def Logger_init_def Logger_log_def
        py_default_def Let_def case_prod_beta)
  show ?thesis
  proof (cases "read_csv lb fl tab 0")
    case (Inl err)
    show ?thesis
      using Some Inl effs wld' upload_block_read_raises [OF Inl, of ?hp "es_w_cache wld" "length (heap wld)" ?lg ?opt]
      by (intro read_raises [of fl err]) simp_all
  next
    case (Inr abd_tbl)
    obtain msgs res where core: "transform_table lb ?hp (args_of i wld abd_tbl) = (msgs, res)"
      by (cases "transform_table lb ?hp (args_of i wld abd_tbl)")
    show ?thesis
    proof (cases res)
      case (Inl err)
      with core have c: "transform_table lb ?hp
          (core_args (es_w_cache wld) (length (heap wld)) abd_tbl ?opt) = (msgs, Inl err)"
        by (simp add: args_of_def)
      show ?thesis
        using Some Inr effs wld' c upload_block_core_raises [OF Inr c, of ?lg]
        by (intro core_raises [of fl abd_tbl msgs err]) (simp_all add: args_of_def)
    next
      case (Inr d)
      with core have c: "transform_table lb ?hp
          (core_args (es_w_cache wld) (length (heap wld)) abd_tbl ?opt) = (msgs, Inr d)"
        by (simp add: args_of_def)
      show ?thesis
        using Some \<open>read_csv lb fl tab 0 = Inr abd_tbl\<close> effs wld' c
          upload_block_core_returns [OF \<open>read_csv lb fl tab 0 = Inr abd_tbl\<close> c, of ?lg]
        by (intro core_returns [of fl abd_tbl msgs d]) (simp_all add: args_of_def log_of_def)
    qed
  qed
qed

lemma run_cases [consumes 1, case_names idle read_raises core_raises prep_raises zip_raises
    show_raises completes]:
  assumes run: "script lb i wld = (wld', effs)"
  obtains
    (idle) "abd_file i = None"
      "effs = head_of lb i wld"
      "session_state wld' (session_id i) = Some (flag0 wld (session_id i))"
  | (read_raises) fl err where "abd_file i = Some fl"
      "read_csv lb fl tab 0 = Inl err"
      "effs = head_of lb i wld @ Call_read_csv fl tab 0 # except_clause err"
      "session_state wld' (session_id i) = Some (flag0 wld (session_id i))"
  | (core_raises) fl abd_tbl msgs err where "abd_file i = Some fl"
      "read_csv lb fl tab 0 = Inr abd_tbl"
      "transform_table lb (heap wld') (args_of i wld abd_tbl) = (msgs, Inl err)"
      "effs = head_of lb i wld @ Call_read_csv fl tab 0
                # Call_transform_table (args_of i wld abd_tbl)
                # shown Expander_log msgs @ except_clause err"
      "session_state wld' (session_id i) = Some (flag0 wld (session_id i))"
  | (prep_raises) fl abd_tbl msgs d made pre e rest err where "abd_file i = Some fl"
      "read_csv lb fl tab 0 = Inr abd_tbl"
      "transform_table lb (heap wld') (args_of i wld abd_tbl) = (msgs, Inr d)"
      "prep_calls d = pre @ e # rest" "made = pre @ [e]" "raises lb e = Some err"
      "\<forall>x \<in> set pre. raises lb x = None"
      "effs = head_of lb i wld @ Call_read_csv fl tab 0
                # Call_transform_table (args_of i wld abd_tbl)
                # shown Expander_log msgs @ made @ except_clause err"
      "session_state wld' (session_id i) = Some (flag0 wld (session_id i))"
  | (zip_raises) fl abd_tbl msgs d err where "abd_file i = Some fl"
      "read_csv lb fl tab 0 = Inr abd_tbl"
      "transform_table lb (heap wld') (args_of i wld abd_tbl) = (msgs, Inr d)"
      "\<forall>x \<in> set (prep_calls d). raises lb x = None"
      "u_zip_items lb (results_items lb (d\<lparr>colors := es_colors\<rparr>) (log_of i msgs)) = Inl err"
      "effs = head_of lb i wld @ Call_read_csv fl tab 0
                # Call_transform_table (args_of i wld abd_tbl)
                # shown Expander_log msgs @ prep_calls d
                @ Call_zip_items (results_items lb (d\<lparr>colors := es_colors\<rparr>) (log_of i msgs))
                # except_clause err"
      "session_state wld' (session_id i) = Some (flag0 wld (session_id i))"
  | (show_raises) fl abd_tbl msgs d z made pre e rest err where "abd_file i = Some fl"
      "read_csv lb fl tab 0 = Inr abd_tbl"
      "transform_table lb (heap wld') (args_of i wld abd_tbl) = (msgs, Inr d)"
      "\<forall>x \<in> set (prep_calls d). raises lb x = None"
      "u_zip_items lb (results_items lb (d\<lparr>colors := es_colors\<rparr>) (log_of i msgs)) = Inr z"
      "results_block lb (d\<lparr>colors := es_colors\<rparr>) z = pre @ e # rest"
      "made = pre @ [e]" "raises lb e = Some err" "\<forall>x \<in> set pre. raises lb x = None"
      "effs = head_of lb i wld @ Call_read_csv fl tab 0
                # Call_transform_table (args_of i wld abd_tbl)
                # shown Expander_log msgs @ prep_calls d
                @ Call_zip_items (results_items lb (d\<lparr>colors := es_colors\<rparr>) (log_of i msgs))
                # made @ except_clause err"
      "session_state wld' (session_id i) = Some (flag0 wld (session_id i))"
  | (completes) fl abd_tbl msgs d z where "abd_file i = Some fl"
      "read_csv lb fl tab 0 = Inr abd_tbl"
      "transform_table lb (heap wld') (args_of i wld abd_tbl) = (msgs, Inr d)"
      "\<forall>x \<in> set (prep_calls d). raises lb x = None"
      "u_zip_items lb (results_items lb (d\<lparr>colors := es_colors\<rparr>) (log_of i msgs)) = Inr z"
      "\<forall>x \<in> set (results_block lb (d\<lparr>colors := es_colors\<rparr>) z). raises lb x = None"
      "effs = head_of lb i wld @ Call_read_csv fl tab 0
                # Call_transform_table (args_of i wld abd_tbl)
                # shown Expander_log msgs @ prep_calls d
                @ Call_zip_items (results_items lb (d\<lparr>colors := es_colors\<rparr>) (log_of i msgs))
                # results_block lb (d\<lparr>colors := es_colors\<rparr>) z"
      "session_state wld' (session_id i) = Some True"
  using run
proof (cases rule: script_cases)
  case idle
  then show ?thesis by (intro that(1)) simp_all
next
  case (read_raises fl err)
  then show ?thesis by (intro that(2) [of fl err]) simp_all
next
  case (core_raises fl abd_tbl msgs err)
  then show ?thesis by (intro that(3) [of fl abd_tbl msgs err]) simp_all
next
  case (core_returns fl abd_tbl msgs d)
  note cr = core_returns
  have hp: "heap wld' = heap wld @ [five_es lb]"
    using cr(5) by simp
  show ?thesis
  proof (cases lb "log_of i msgs" d rule: after_transform_cases)
    case (prep_raises made err)
    from run_calls_Some [OF prep_raises(1)] obtain pre e rest where
      s: "made = pre @ [e]" "prep_calls d = pre @ e # rest" "raises lb e = Some err"
        "\<forall>x \<in> set pre. raises lb x = None"
      by blast
    with cr prep_raises hp show ?thesis
      by (intro that(4) [of fl abd_tbl msgs d pre e rest made err]) simp_all
  next
    case (zip_raises err)
    from zip_raises(1) have "\<forall>x \<in> set (prep_calls d). raises lb x = None"
      using run_calls_None [of lb "prep_calls d"] by simp
    with cr zip_raises hp show ?thesis
      by (intro that(5) [of fl abd_tbl msgs d err]) simp_all
  next
    case (show_raises z drawn err)
    from show_raises(1) have p: "\<forall>x \<in> set (prep_calls d). raises lb x = None"
      using run_calls_None [of lb "prep_calls d"] by simp
    from run_calls_Some [OF show_raises(3)] obtain pre e rest where
      s: "drawn = pre @ [e]" "results_block lb (d\<lparr>colors := es_colors\<rparr>) z = pre @ e # rest"
        "raises lb e = Some err" "\<forall>x \<in> set pre. raises lb x = None"
      by blast
    with cr show_raises hp p show ?thesis
      by (intro that(6) [of fl abd_tbl msgs d z pre e rest drawn err]) simp_all
  next
    case (completes z)
    from completes(1) have p: "\<forall>x \<in> set (prep_calls d). raises lb x = None"
      using run_calls_None [of lb "prep_calls d"] by simp
    from completes(3) have r:
      "\<forall>x \<in> set (results_block lb (d\<lparr>colors := es_colors\<rparr>) z). raises lb x = None"
      using run_calls_None [of lb "results_block lb (d\<lparr>colors := es_colors\<rparr>) z"] by simp
    with cr completes hp p show ?thesis
      by (intro that(7) [of fl abd_tbl msgs d z]) simp_all
  qed
qed

subsection \<open>Facts about the parts of the list of calls\<close>

lemma offered_append: "offered (xs @ ys) = offered xs @ offered ys"
  by (induction xs rule: offered.induct) simp_all

lemma logged_messages_append:
  "logged_messages (xs @ ys) = logged_messages xs @ logged_messages ys"
  by (induction xs rule: logged_messages.induct) simp_all

lemma loads_append: "loads (xs @ ys) = loads xs @ loads ys"
  by (induction xs rule: loads.induct) simp_all

lemma core_calls_append: "core_calls (xs @ ys) = core_calls xs @ core_calls ys"
  by (induction xs rule: core_calls.induct) simp_all

lemma read_calls_append: "read_calls (xs @ ys) = read_calls xs @ read_calls ys"
  by (induction xs rule: read_calls.induct) simp_all

lemma plots_append: "plots (xs @ ys) = plots xs @ plots ys"
  by (induction xs rule: plots.induct) simp_all

lemma tried_append: "read_calls xs = [] \<Longrightarrow> tried (xs @ ys) = tried ys"
  by (induction xs rule: tried.induct) simp_all

lemma shown_Nil: "shown c [] = []"
  by (simp add: shown_def)

lemma shown_Cons: "shown c (m # ms) = Call_log m True # St_write c m # shown c ms"
  by (simp add: shown_def)

lemma shown_reads:
  "offered (shown c ms) = []" "loads (shown c ms) = []" "core_calls (shown c ms) = []"
  "logged_messages (shown c ms) = ms" "read_calls (shown c ms) = []" "plots (shown c ms) = []"
  by (induction ms) (simp_all add: shown_Nil shown_Cons)

lemma shown_tests:
  "\<not> list_ex is_zip (shown c ms)" "\<not> list_ex is_download (shown c ms)"
  "\<not> list_ex is_plot (shown c ms)" "\<not> list_ex (call_raises lb hp err) (shown c ms)"
  "\<not> list_ex (call_fails lb hp) (shown c ms)"
  "\<not> list_ex (call_returns lb hp d) (shown c ms)"
  "\<not> list_ex (\<lambda>e. before_zip e \<and> P e) (shown c ms)"
  by (induction ms) (simp_all add: shown_Nil shown_Cons)

lemma head_of_reads:
  "offered (head_of lb i wld) = []" "loads (head_of lb i wld) = [length (heap wld)]"
  "core_calls (head_of lb i wld) = []"
  "logged_messages (head_of lb i wld) = [''Date: '' @ today i]"
  "read_calls (head_of lb i wld) = []" "plots (head_of lb i wld) = []"
  by (simp_all add: head_of_def page_head_def)

lemma head_of_tests:
  "\<not> list_ex is_zip (head_of lb i wld)" "\<not> list_ex is_download (head_of lb i wld)"
  "\<not> list_ex is_plot (head_of lb i wld)"
  "\<not> list_ex (call_returns lb hp d) (head_of lb i wld)"
  by (simp_all add: head_of_def page_head_def)

lemma tried_head:
  "tried (head_of lb i wld) = []"
  "tried (head_of lb i wld @ Call_read_csv f s k # es) = Call_read_csv f s k # es"
  using tried_append [of "head_of lb i wld" "[]"]
    tried_append [of "head_of lb i wld" "Call_read_csv f s k # es"]
  by (simp_all add: head_of_reads)

lemma except_clause_reads:
  "offered (except_clause err) = []" "loads (except_clause err) = []"
  "core_calls (except_clause err) = []" "logged_messages (except_clause err) = []"
  "read_calls (except_clause err) = []" "plots (except_clause err) = []"
  by (cases err; simp add: except_clause_def)+

lemma except_clause_tests:
  "\<not> list_ex is_zip (except_clause err)" "\<not> list_ex is_download (except_clause err)"
  "\<not> list_ex is_plot (except_clause err)"
  "\<not> list_ex (call_raises lb hp e) (except_clause err)"
  "\<not> list_ex (call_fails lb hp) (except_clause err)"
  "\<not> list_ex (call_returns lb hp d) (except_clause err)"
  "\<not> list_ex (\<lambda>e. before_zip e \<and> P e) (except_clause err)"
  by (cases err; simp add: except_clause_def)+

lemma prep_calls_reads:
  "offered (prep_calls d) = []" "loads (prep_calls d) = []" "core_calls (prep_calls d) = []"
  "logged_messages (prep_calls d) = []" "read_calls (prep_calls d) = []"
  "plots (prep_calls d) = []"
  by (simp_all add: prep_calls_def items_calls_def)

lemma prep_calls_tests:
  "\<not> list_ex is_zip (prep_calls d)" "\<not> list_ex is_download (prep_calls d)"
  "\<not> list_ex is_plot (prep_calls d)" "\<not> list_ex (call_returns lb hp d') (prep_calls d)"
  "list_all asked (prep_calls d)"
  by (simp_all add: prep_calls_def items_calls_def)

lemma results_block_reads:
  "offered (results_block lb d z) = [z]" "loads (results_block lb d z) = []"
  "core_calls (results_block lb d z) = []" "logged_messages (results_block lb d z) = []"
  "read_calls (results_block lb d z) = []"
  "plots (results_block lb d z) =
     [(Expander_results, Plot_relative_weight), (Expander_results, Plot_modelfit)]
     @ (if snd (shape lb (dec_h d)) < 500 then [(Expander_results, Plot_pcoa)] else [])"
  by (simp_all add: results_block_def)

lemma results_block_tests:
  "\<not> list_ex is_zip (results_block lb d z)"
  "\<not> list_ex (call_returns lb hp d') (results_block lb d z)"
  "list_all asked (results_block lb d z)"
  "list_ex is_download (results_block lb d z)"
  by (simp_all add: results_block_def)


lemma asked_raises:
  assumes "asked e"
  shows "call_raises lb hp err e \<longleftrightarrow> raises lb e = Some err"
    and "call_fails lb hp e \<longleftrightarrow> raises lb e \<noteq> None"
  using assms by (cases e; simp)+

lemma call_raises_fails: "call_raises lb hp err e \<Longrightarrow> call_fails lb hp e"
  by (cases e) auto


text \<open>
  A sequence of calls \<open>cs\<close> that was cut short by an exception: \<open>made\<close> are the calls
  made, \<open>e\<close> the one that raised.
\<close>

lemma made_reads:
  assumes "cs = pre @ e # rest" and "made = pre @ [e]"
  shows "offered cs = [] \<Longrightarrow> offered made = []"
    and "loads cs = [] \<Longrightarrow> loads made = []"
    and "core_calls cs = [] \<Longrightarrow> core_calls made = []"
    and "logged_messages cs = [] \<Longrightarrow> logged_messages made = []"
    and "read_calls cs = [] \<Longrightarrow> read_calls made = []"
    and "plots cs = [] \<Longrightarrow> plots made = []"
    and "\<not> list_ex P cs \<Longrightarrow> \<not> list_ex P made"
proof -
  have c: "cs = made @ rest"
    using assms by simp
  show "offered cs = [] \<Longrightarrow> offered made = []"
    unfolding c offered_append by simp
  show "loads cs = [] \<Longrightarrow> loads made = []"
    unfolding c loads_append by simp
  show "core_calls cs = [] \<Longrightarrow> core_calls made = []"
    unfolding c core_calls_append by simp
  show "logged_messages cs = [] \<Longrightarrow> logged_messages made = []"
    unfolding c logged_messages_append by simp
  show "read_calls cs = [] \<Longrightarrow> read_calls made = []"
    unfolding c read_calls_append by simp
  show "plots cs = [] \<Longrightarrow> plots made = []"
    unfolding c plots_append by simp
  show "\<not> list_ex P cs \<Longrightarrow> \<not> list_ex P made"
    unfolding c by simp
qed

lemma made_raises:
  assumes "cs = pre @ e # rest" and "made = pre @ [e]" and "list_all asked cs"
    and "raises lb e = Some err" and "\<forall>x \<in> set pre. raises lb x = None"
  shows "list_ex (call_raises lb hp err1) made \<longleftrightarrow> err1 = err"
    and "list_ex (call_fails lb hp) made"
    and "list_ex (\<lambda>x. before_zip x \<and> call_raises lb hp err1 x) made
           \<longleftrightarrow> before_zip e \<and> err1 = err"
    and "last (xs @ made @ ys) = last (e # ys)"
proof -
  from assms(1,3) have a: "asked e" "\<forall>x \<in> set pre. asked x"
    by (auto simp: list_all_iff)
  with assms(4,5) show "list_ex (call_raises lb hp err1) made \<longleftrightarrow> err1 = err"
    unfolding assms(2) by (auto simp: list_ex_iff asked_raises)
  from a assms(4) show "list_ex (call_fails lb hp) made"
    unfolding assms(2) by (auto simp: list_ex_iff asked_raises)
  from a assms(4,5) show "list_ex (\<lambda>x. before_zip x \<and> call_raises lb hp err1 x) made
           \<longleftrightarrow> before_zip e \<and> err1 = err"
    unfolding assms(2) by (auto simp: list_ex_iff asked_raises)
  show "last (xs @ made @ ys) = last (e # ys)"
    unfolding assms(2) by simp
qed

lemma made_results:
  assumes "results_block lb d z = pre @ e # rest" and "made = pre @ [e]"
  shows "offered made = [z]" and "list_ex is_download made"
proof -
  have h: "hd made = St_download_button Expander_results (DOWNLOAD_LABEL (text_py lb)) z
      ''apply_es_results.zip''"
    unfolding assms(2) using arg_cong [OF assms(1), of hd]
    by (cases pre) (simp_all add: results_block_def)
  have "made \<noteq> []"
    unfolding assms(2) by simp
  with h obtain tl1 where t: "made = St_download_button Expander_results
      (DOWNLOAD_LABEL (text_py lb)) z ''apply_es_results.zip'' # tl1"
    by (cases made) simp_all
  have "results_block lb d z = made @ rest"
    using assms by simp
  then have "offered (results_block lb d z) = offered made @ offered rest"
    by (simp only: offered_append)
  then show "offered made = [z]"
    unfolding t by (simp add: results_block_reads)
  show "list_ex is_download made"
    unfolding t by simp
qed

lemmas reads = offered_append logged_messages_append loads_append core_calls_append
  read_calls_append plots_append
  shown_reads head_of_reads except_clause_reads prep_calls_reads results_block_reads

lemmas tests = shown_tests head_of_tests except_clause_tests prep_calls_tests
  results_block_tests

lemma after_transform_reads:
  "loads (fst (after_transform lb lg d)) = []"
  "core_calls (fst (after_transform lb lg d)) = []"
  "read_calls (fst (after_transform lb lg d)) = []"
  "logged_messages (fst (after_transform lb lg d)) = []"
proof -
  have "loads (fst (after_transform lb lg d)) = []
      \<and> core_calls (fst (after_transform lb lg d)) = []
      \<and> read_calls (fst (after_transform lb lg d)) = []
      \<and> logged_messages (fst (after_transform lb lg d)) = []"
  proof (cases lb lg d rule: after_transform_cases)
    case (prep_raises made err)
    from run_calls_Some [OF prep_raises(1)] obtain pre e rest where
      s: "made = pre @ [e]" "prep_calls d = pre @ e # rest"
      by blast
    note m = made_reads [OF s(2,1)]
    from prep_raises(2) show ?thesis
      by (simp add: reads m(2) [OF prep_calls_reads(2)] m(3) [OF prep_calls_reads(3)]
          m(4) [OF prep_calls_reads(4)] m(5) [OF prep_calls_reads(5)])
  next
    case (zip_raises err)
    then show ?thesis by (simp add: reads)
  next
    case (show_raises z drawn err)
    from run_calls_Some [OF show_raises(3)] obtain pre e rest where
      s: "drawn = pre @ [e]" "results_block lb (d\<lparr>colors := es_colors\<rparr>) z = pre @ e # rest"
      by blast
    note m = made_reads [OF s(2,1)]
    from show_raises(4) show ?thesis
      by (simp add: reads m(2) [OF results_block_reads(2)] m(3) [OF results_block_reads(3)]
          m(4) [OF results_block_reads(4)] m(5) [OF results_block_reads(5)])
  next
    case (completes z)
    then show ?thesis by (simp add: reads)
  qed
  then show "loads (fst (after_transform lb lg d)) = []"
    "core_calls (fst (after_transform lb lg d)) = []"
    "read_calls (fst (after_transform lb lg d)) = []"
    "logged_messages (fst (after_transform lb lg d)) = []"
    by simp_all
qed

lemma script_core_calls:
  assumes "script lb i wld = (wld', effs)"
  shows "core_calls effs = [] \<or> (\<exists>abd_tbl. core_calls effs = [args_of i wld abd_tbl])"
  using assms by (cases rule: script_cases) (auto simp: reads after_transform_reads)

lemma toggle_in_head:
  "St_toggle Col_opts (ROLLUP_LABEL (text_py lb)) True (ROLLUP_TOOLTIP (text_py lb))
     \<in> set (head_of lb i wld)"
  by (simp add: head_of_def page_head_def)

lemma to_file_log_of: "Logger_to_file (log_of i msgs) = join newline ((''Date: '' @ today i) # msgs)"
  by (simp add: Logger_to_file_def log_of_def)

lemma cut_nul_names:
  "cut_nul ''w.tsv'' = ''w.tsv''" "cut_nul ''h.tsv'' = ''h.tsv''"
  "cut_nul ''w_scaled.tsv'' = ''w_scaled.tsv''" "cut_nul ''h_scaled.tsv'' = ''h_scaled.tsv''"
  "cut_nul ''x.tsv'' = ''x.tsv''" "cut_nul ''model_fit.tsv'' = ''model_fit.tsv''"
  "cut_nul ''quality_measures.tsv'' = ''quality_measures.tsv''"
  "cut_nul ''primary_signatures.tsv'' = ''primary_signatures.tsv''"
  "cut_nul ''representative_signatures.tsv'' = ''representative_signatures.tsv''"
  "cut_nul ''monodominant_samples.tsv'' = ''monodominant_samples.tsv''"
  "cut_nul ''taxon_mapping.tsv'' = ''taxon_mapping.tsv''" "cut_nul ''log.txt'' = ''log.txt''"
  by (simp_all add: cut_nul_def)

lemma zipped_results:
  assumes "u_zip_items lb (results_items lb (d\<lparr>colors := es_colors\<rparr>) (log_of i msgs)) = Inr z"
  shows "z = archive_of lb d ((''Date: '' @ today i) # msgs)"
  using assms
  by (simp add: u_zip_items_Inr_iff entries_of_def results_items_def cut_nul_names
      to_file_log_of archive_of_def)

subsection \<open>The runs of a process\<close>

lemma script_heap: "heap (fst (script lb i wld)) = heap wld @ [five_es lb]"
  using surjective_pairing [of "script lb i wld"]
  by (cases rule: script_cases) simp_all

lemma script_loads: "loads (snd (script lb i wld)) = [length (heap wld)]"
  using surjective_pairing [of "script lb i wld"]
  by (cases rule: script_cases) (simp_all add: reads after_transform_reads)

lemma script_hard_mapping:
  "\<forall>args \<in> set (core_calls (snd (script lb i wld))). hard_mapping args = []"
  using script_core_calls [OF surjective_pairing, of lb i wld]
  by (auto simp: args_of_def core_args_def)

lemma script_cached:
  assumes "es_w_cache wld = Some r"
  shows "es_w_cache (fst (script lb i wld)) = Some r
       \<and> (\<forall>a \<in> set (core_calls (snd (script lb i wld))). model_w a = r)"
  using surjective_pairing [of "script lb i wld"] assms
  by (cases rule: script_cases)
     (simp_all add: reads after_transform_reads args_of_def core_args_def u_get_es_w_def)

lemma script_fresh:
  assumes "es_w_cache wld = None"
  shows "(es_w_cache (fst (script lb i wld)) = None \<and> core_calls (snd (script lb i wld)) = [])
       \<or> (es_w_cache (fst (script lb i wld)) = Some (length (heap wld))
          \<and> (\<forall>a \<in> set (core_calls (snd (script lb i wld))). model_w a = length (heap wld)))"
  using surjective_pairing [of "script lb i wld"] assms
  by (cases rule: script_cases)
     (simp_all add: reads after_transform_reads args_of_def core_args_def u_get_es_w_def)

lemma reruns_Cons:
  "reruns lb wld (i # runs) =
     (fst (reruns lb (fst (script lb i wld)) runs),
      snd (script lb i wld) @ snd (reruns lb (fst (script lb i wld)) runs))"
  by (simp add: case_prod_beta)

lemma reruns_heap:
  "heap (fst (reruns lb wld runs)) = heap wld @ replicate (length runs) (five_es lb)"
proof (induction runs arbitrary: wld)
  case Nil
  show ?case by simp
next
  case (Cons i runs)
  show ?case
    by (simp only: reruns_Cons fst_conv Cons.IH script_heap)
       (simp add: replicate_app_Cons_same)
qed

lemma reruns_loads:
  "loads (snd (reruns lb wld runs)) = [length (heap wld) ..< length (heap wld) + length runs]"
proof (induction runs arbitrary: wld)
  case Nil
  show ?case by simp
next
  case (Cons i runs)
  have "loads (snd (reruns lb wld (i # runs)))
          = [length (heap wld)] @ loads (snd (reruns lb (fst (script lb i wld)) runs))"
    by (simp only: reruns_Cons snd_conv loads_append script_loads)
  also have "\<dots> = [length (heap wld)]
          @ [Suc (length (heap wld)) ..< Suc (length (heap wld)) + length runs]"
    by (simp only: Cons.IH script_heap) simp
  also have "\<dots> = [length (heap wld) ..< length (heap wld) + length (i # runs)]"
    by (simp add: upt_conv_Cons del: upt_Suc)
  finally show ?case .
qed

lemma reruns_hard_mapping:
  "\<forall>args \<in> set (core_calls (snd (reruns lb wld runs))). hard_mapping args = []"
proof (induction runs arbitrary: wld)
  case Nil
  show ?case by simp
next
  case (Cons i runs)
  with script_hard_mapping [of lb i wld] show ?case
    by (auto simp: reruns_Cons core_calls_append simp del: reruns.simps(2))
qed

lemma reruns_cached:
  assumes "es_w_cache wld = Some r"
  shows "es_w_cache (fst (reruns lb wld runs)) = Some r
       \<and> (\<forall>a \<in> set (core_calls (snd (reruns lb wld runs))). model_w a = r)"
  using assms
proof (induction runs arbitrary: wld)
  case Nil
  then show ?case by simp
next
  case (Cons i runs)
  from script_cached [OF Cons.prems, of lb i]
  have c: "es_w_cache (fst (script lb i wld)) = Some r"
    and m: "\<forall>a \<in> set (core_calls (snd (script lb i wld))). model_w a = r"
    by simp_all
  from Cons.IH [OF c] m show ?case
    by (auto simp: reruns_Cons core_calls_append simp del: reruns.simps(2))
qed

lemma reruns_fresh:
  assumes "es_w_cache wld = None"
  shows "core_calls (snd (reruns lb wld runs)) = []
       \<or> (\<exists>r. es_w_cache (fst (reruns lb wld runs)) = Some r
              \<and> length (heap wld) \<le> r \<and> r < length (heap wld) + length runs
              \<and> (\<forall>a \<in> set (core_calls (snd (reruns lb wld runs))). model_w a = r))"
  using assms
proof (induction runs arbitrary: wld)
  case Nil
  then show ?case by simp
next
  case (Cons i runs)
  from script_fresh [OF Cons.prems, of lb i]
  consider (none) "es_w_cache (fst (script lb i wld)) = None"
      "core_calls (snd (script lb i wld)) = []"
    | (some) "es_w_cache (fst (script lb i wld)) = Some (length (heap wld))"
      "\<forall>a \<in> set (core_calls (snd (script lb i wld))). model_w a = length (heap wld)"
    by auto
  then show ?case
  proof cases
    case none
    from Cons.IH [OF none(1)] none(2) show ?thesis
      by (auto simp: reruns_Cons core_calls_append script_heap simp del: reruns.simps(2))
  next
    case some
    from reruns_cached [OF some(1), of lb runs] some(2) show ?thesis
      by (auto simp: reruns_Cons core_calls_append simp del: reruns.simps(2))
  qed
qed

section \<open>The claims\<close>




text \<open>
  C2, as amended. When the core returns the decomposition \<open>d\<close> and the run reaches the
  download button, exactly one archive is offered, and it holds thirteen entries in
  this order: the twelve artifacts (W, H, scaled W, scaled H, X, model fit, quality
  series, primary signatures, representative signatures, monodominant samples, taxon
  mapping, each as tab-separated text of the corresponding part of \<open>d\<close>, and the log
  text) followed by \<^verbatim>\<open>README.txt\<close>. The run reaches the download button when no call
  of the \<^verbatim>\<open>try\<close> fails.
\<close>

theorem results_package_entries:
  assumes "script lb i wld = (wld', effs)"
    and "list_ex (call_returns lb (heap wld') d) effs"
  shows "(list_ex is_download effs \<longrightarrow>
          offered effs =
          [[(''w.tsv'', to_csv lb (dec_w d) tab),
            (''h.tsv'', to_csv lb (dec_h d) tab),
            (''w_scaled.tsv'', to_csv lb (scaled_w d) tab),
            (''h_scaled.tsv'', to_csv lb (scaled_h d) tab),
            (''x.tsv'', to_csv lb (parameters_x d) tab),
            (''model_fit.tsv'', to_csv lb (model_fit d) tab),
            (''quality_measures.tsv'', to_csv lb (quality_series d) tab),
            (''primary_signatures.tsv'', to_csv lb (primary_signature d) tab),
            (''representative_signatures.tsv'', to_csv lb (representative_signatures d) tab),
            (''monodominant_samples.tsv'', to_csv lb (monodominant_samples d) tab),
            (''taxon_mapping.tsv'', to_csv lb (feature_mapping d) tab),
            (''log.txt'', join newline (logged_messages effs)),
            (''README.txt'', readme_txt lb)]])
       \<and> (\<not> list_ex (call_fails lb (heap wld')) (tried effs) \<longrightarrow> list_ex is_download effs)"
  using assms(1)
proof (cases rule: run_cases)
  case idle
  with assms(2) show ?thesis by (simp add: tests)
next
  case (read_raises fl err)
  with assms(2) show ?thesis by (simp add: tests)
next
  case (core_raises fl abd_tbl msgs err)
  with assms(2) show ?thesis by (simp add: tests)
next
  case (prep_raises fl abd_tbl msgs d1 made pre e rest err)
  note c = made_raises [OF prep_raises(4,5) prep_calls_tests(5) prep_raises(6,7)]
  note t = made_reads(7) [OF prep_raises(4,5)]
  from prep_raises(8) show ?thesis
    by (simp add: tried_head tests c(2) t [OF prep_calls_tests(2)])
next
  case (zip_raises fl abd_tbl msgs d1 err)
  then show ?thesis
    by (simp add: tried_head tests)
next
  case (show_raises fl abd_tbl msgs d1 z made pre e rest err)
  note r = made_reads [OF show_raises(6,7)]
  note c = made_raises [OF show_raises(6,7) results_block_tests(3) show_raises(8,9)]
  from assms(2) show_raises(3,10) have "d1 = d"
    by (simp add: tests r(7) [OF results_block_tests(2)])
  with show_raises(10) zipped_results [OF show_raises(5)]
    made_results [OF show_raises(6,7)]
  show ?thesis
    by (simp add: reads tried_head c(2) archive_of_def r(4) [OF results_block_reads(4)])
next
  case (completes fl abd_tbl msgs d1 z)
  from assms(2) completes(3,7) have "d1 = d"
    by (simp add: tests)
  with completes(7) zipped_results [OF completes(5)] show ?thesis
    by (simp add: reads tests archive_of_def)
qed

text \<open>
  C2, as stated, fails: the archive of a successful run does not hold exactly twelve
  entries, \<^verbatim>\<open>README.txt\<close> is a thirteenth.
\<close>

theorem results_package_counterexample:
  "map (map fst) (offered (snd (script sample_libs run_good world0)))
     = [[''w.tsv'', ''h.tsv'', ''w_scaled.tsv'', ''h_scaled.tsv'', ''x.tsv'',
         ''model_fit.tsv'', ''quality_measures.tsv'', ''primary_signatures.tsv'',
         ''representative_signatures.tsv'', ''monodominant_samples.tsv'',
         ''taxon_mapping.tsv'', ''log.txt'', ''README.txt'']]
   \<and> map length (offered (snd (script sample_libs run_good world0))) \<noteq> [12]"
  by code_simp

theorem results_package_entries_witness:
  "list_ex (call_returns sample_libs (heap (fst (script sample_libs run_good world0)))
             sample_result)
           (snd (script sample_libs run_good world0))
   \<and> \<not> list_ex (call_fails sample_libs (heap (fst (script sample_libs run_good world0))))
             (tried (snd (script sample_libs run_good world0)))
   \<and> list_ex is_download (snd (script sample_libs run_good world0))
   \<and> map (map fst) (offered (snd (script sample_libs run_good world0)))
     = [[''w.tsv'', ''h.tsv'', ''w_scaled.tsv'', ''h_scaled.tsv'', ''x.tsv'',
         ''model_fit.tsv'', ''quality_measures.tsv'', ''primary_signatures.tsv'',
         ''representative_signatures.tsv'', ''monodominant_samples.tsv'',
         ''taxon_mapping.tsv'', ''log.txt'', ''README.txt'']]"
proof -
  have h: "list_ex (call_returns sample_libs (heap (fst (script sample_libs run_good world0)))
             sample_result)
           (snd (script sample_libs run_good world0))"
    and f: "\<not> list_ex (call_fails sample_libs (heap (fst (script sample_libs run_good world0))))
             (tried (snd (script sample_libs run_good world0)))"
    by code_simp+
  from results_package_entries [OF surjective_pairing h] h f show ?thesis
    by simp
qed

text \<open>
  C3. Every run shows the rollup toggle, created with the value \<open>True\<close>; the core is
  called with \<open>rollup\<close> equal to what the toggle returns, which is \<open>True\<close> as long as
  the user has not switched it.
\<close>

theorem rollup_flag_passed:
  assumes "script lb i wld = (wld', effs)"
  shows "St_toggle Col_opts (ROLLUP_LABEL (text_py lb)) True (ROLLUP_TOOLTIP (text_py lb))
           \<in> set effs
       \<and> (\<forall>args \<in> set (core_calls effs). rollup args = st_toggle True (rollup_toggle i))
       \<and> (rollup_toggle i = None \<longrightarrow> (\<forall>args \<in> set (core_calls effs). rollup args = True))"
proof -
  have "St_toggle Col_opts (ROLLUP_LABEL (text_py lb)) True (ROLLUP_TOOLTIP (text_py lb))
           \<in> set effs"
    using assms by (cases rule: script_cases) (simp_all add: toggle_in_head)
  moreover have "\<forall>args \<in> set (core_calls effs). rollup args = st_toggle True (rollup_toggle i)"
    using script_core_calls [OF assms] by (auto simp: args_of_def core_args_def)
  ultimately show ?thesis by (auto simp: st_toggle_def)
qed

theorem rollup_flag_passed_witness:
  "map rollup (core_calls (snd (script sample_libs run_good world0))) = [True]
   \<and> map rollup (core_calls (snd (script sample_libs run_bad world0))) = [False]"
proof -
  have g: "length (core_calls (snd (script sample_libs run_good world0))) = 1"
    and b: "length (core_calls (snd (script sample_libs run_bad world0))) = 1"
    by code_simp+
  from g obtain a where a: "core_calls (snd (script sample_libs run_good world0)) = [a]"
    by (cases "core_calls (snd (script sample_libs run_good world0))") auto
  from b obtain c where c: "core_calls (snd (script sample_libs run_bad world0)) = [c]"
    by (cases "core_calls (snd (script sample_libs run_bad world0))") auto
  from rollup_flag_passed [OF surjective_pairing, of sample_libs run_good world0]
    rollup_flag_passed [OF surjective_pairing, of sample_libs run_bad world0] a c
  show ?thesis
    by (simp add: run_good_def run_bad_def st_toggle_def)
qed

text \<open>
  C4. In every call of the core that the program makes, in any sequence of runs, the
  hard mapping passed is empty, so every label is resolved by the computed match. For the
  override step itself (modelled from the spec): a label that a supplied mapping contains
  is resolved to the mapped taxon whatever the computed match is, and a call that leaves
  the mapping out resolves by the computed match.
\<close>

theorem hard_mapping_always_empty:
  assumes "reruns lb wld runs = (wld', effs)"
  shows "(\<forall>args \<in> set (core_calls effs).
            hard_mapping args = []
            \<and> resolve_label (Some (hard_mapping args)) computed label = computed label)
       \<and> (map_of hm label = Some taxon \<longrightarrow> resolve_label (Some hm) computed label = Some taxon)
       \<and> resolve_label None computed label = computed label"
  using reruns_hard_mapping [of lb wld runs] assms
  by (auto simp: resolve_label_def py_default_def)

theorem hard_mapping_always_empty_witness:
  "map hard_mapping (core_calls (snd (reruns sample_libs world0 [run_idle, run_good, run_bad])))
     = [[], []]
   \<and> resolve_label (Some [(''a'', ''b'')]) (\<lambda>l. Some ''c'') ''a'' = Some ''b''
   \<and> resolve_label None (\<lambda>l. Some ''c'') ''a'' = Some ''c''"
proof -
  have n: "length (core_calls (snd (reruns sample_libs world0 [run_idle, run_good, run_bad]))) = 2"
    by code_simp
  have m: "map_of [(''a'', ''b'')] ''a'' = Some ''b''"
    by simp
  note t = hard_mapping_always_empty [OF surjective_pairing,
      of sample_libs world0 "[run_idle, run_good, run_bad]"
         "\<lambda>l. Some ''c''" "''a''" "[(''a'', ''b'')]" "''b''"]
  from t have e: "\<forall>args \<in> set (core_calls (snd (reruns sample_libs world0 [run_idle, run_good, run_bad]))).
            hard_mapping args = []"
    by blast
  have "map hard_mapping (core_calls (snd (reruns sample_libs world0 [run_idle, run_good, run_bad])))
     = replicate (length (core_calls (snd (reruns sample_libs world0 [run_idle, run_good, run_bad])))) []"
    using e by (simp only: map_replicate_const [symmetric] map_eq_conv)
  with n have "map hard_mapping (core_calls (snd (reruns sample_libs world0 [run_idle, run_good, run_bad])))
     = [[], []]"
    by (simp only: replicate.simps numeral_2_eq_2)
  moreover from t m have "resolve_label (Some [(''a'', ''b'')]) (\<lambda>l. Some ''c'') ''a'' = Some ''b''"
    by blast
  moreover from t have "resolve_label None (\<lambda>l. Some ''c'') ''a'' = Some ''c''"
    by blast
  ultimately show ?thesis
    by blast
qed

text \<open>
  C5, as amended. In any sequence of runs of a process, every run loads a basis matrix
  (there are as many loads as runs), but all calls of the core receive one and the same
  object: one that the program loaded, that the resource cache of \<^verbatim>\<open>_get_es_w\<close> holds,
  and whose content at the end is still the loaded matrix.
\<close>

theorem basis_object_shared:
  assumes "reruns lb world0 runs = (wld, effs)"
  shows "length (loads effs) = length runs
       \<and> (\<forall>a \<in> set (core_calls effs). \<forall>b \<in> set (core_calls effs). model_w a = model_w b)
       \<and> (\<forall>a \<in> set (core_calls effs).
            model_w a \<in> set (loads effs) \<and> es_w_cache wld = Some (model_w a)
            \<and> model_w a < length (heap wld) \<and> heap wld ! model_w a = five_es lb)"
proof -
  have w: "wld = fst (reruns lb world0 runs)" and e: "effs = snd (reruns lb world0 runs)"
    using assms by simp_all
  have hp: "heap wld = replicate (length runs) (five_es lb)"
    by (simp add: w reruns_heap world0_def)
  have ld: "loads effs = [0 ..< length runs]"
    by (simp add: e reruns_loads world0_def)
  from reruns_fresh [of world0 lb runs]
  consider "core_calls effs = []"
    | r where "es_w_cache wld = Some r" "r < length runs"
        "\<forall>a \<in> set (core_calls effs). model_w a = r"
    by (auto simp: w e world0_def)
  then show ?thesis
  proof cases
    case 1
    then show ?thesis by (simp add: ld)
  next
    case 2
    then show ?thesis by (simp add: ld hp)
  qed
qed

text \<open>
  C5, as stated, fails: in a process that runs the script three times (once without a
  file, twice with one) the matrix is loaded three times, not once, and the object
  passed to both calls of the core is the second one loaded, not the one of the first
  run.
\<close>

theorem basis_loaded_once_counterexample:
  "loads (snd (reruns sample_libs world0 [run_idle, run_good, run_good])) = [0, 1, 2]
   \<and> length (loads (snd (reruns sample_libs world0 [run_idle, run_good, run_good]))) \<noteq> 1
   \<and> map model_w (core_calls (snd (reruns sample_libs world0 [run_idle, run_good, run_good])))
       = [1, 1]"
  by code_simp

theorem basis_object_shared_witness:
  "length (loads (snd (reruns sample_libs world0 [run_idle, run_good, run_good]))) = 3
   \<and> map model_w (core_calls (snd (reruns sample_libs world0 [run_idle, run_good, run_good])))
       = [1, 1]
   \<and> es_w_cache (fst (reruns sample_libs world0 [run_idle, run_good, run_good])) = Some 1
   \<and> heap (fst (reruns sample_libs world0 [run_idle, run_good, run_good])) ! 1 = [[''w'']]"
proof -
  define W where "W = fst (reruns sample_libs world0 [run_idle, run_good, run_good])"
  define E where "E = snd (reruns sample_libs world0 [run_idle, run_good, run_good])"
  have run: "reruns sample_libs world0 [run_idle, run_good, run_good] = (W, E)"
    by (simp only: W_def E_def prod.collapse)
  note t = basis_object_shared [OF run]
  have m: "map model_w (core_calls E) = [1, 1]"
    unfolding E_def by code_simp
  then obtain a where a: "a \<in> set (core_calls E)" "model_w a = 1"
    by (cases "core_calls E") auto
  have l: "length (loads E) = 3"
    using t [THEN conjunct1] by simp
  have "es_w_cache W = Some (model_w a) \<and> heap W ! model_w a = five_es sample_libs"
    using t [THEN conjunct2, THEN conjunct2, THEN bspec, OF a(1)] by blast
  with a(2) have c: "es_w_cache W = Some 1" and h: "heap W ! 1 = [[''w'']]"
    by (simp_all add: sample_libs_def)
  from l m c h show ?thesis
    unfolding W_def E_def by blast
qed

text \<open>
  C6. The entry \<^verbatim>\<open>log.txt\<close> of an offered archive is the newline-join of all
  messages passed to \<^verbatim>\<open>Logger.log\<close> during the run, in the order of the calls; these
  are the date line of the constructor followed by the messages the core passed to the
  callback it was given.
\<close>

theorem log_file_joins_messages:
  assumes "script lb i wld = (wld', effs)" and "z \<in> set (offered effs)"
  shows "map_of z ''log.txt'' = Some (join newline (logged_messages effs))
       \<and> (\<forall>args \<in> set (core_calls effs).
            logged_messages effs
              = (''Date: '' @ today i) # fst (transform_table lb (heap wld') args))"
  using assms(1)
proof (cases rule: run_cases)
  case idle
  with assms(2) show ?thesis by (simp add: reads)
next
  case (read_raises fl err)
  with assms(2) show ?thesis by (simp add: reads)
next
  case (core_raises fl abd_tbl msgs err)
  with assms(2) show ?thesis by (simp add: reads)
next
  case (prep_raises fl abd_tbl msgs d made pre e rest err)
  from assms(2) prep_raises(8) made_reads(1) [OF prep_raises(4,5) prep_calls_reads(1)]
  show ?thesis
    by (simp add: reads)
next
  case (zip_raises fl abd_tbl msgs d err)
  with assms(2) show ?thesis by (simp add: reads)
next
  case (show_raises fl abd_tbl msgs d z1 made pre e rest err)
  note r = made_reads [OF show_raises(6,7)]
  from assms(2) show_raises(3,10) zipped_results [OF show_raises(5)]
    made_results [OF show_raises(6,7)]
  show ?thesis
    by (simp add: reads archive_of_def r(3) [OF results_block_reads(3)]
        r(4) [OF results_block_reads(4)])
next
  case (completes fl abd_tbl msgs d z1)
  from assms(2) completes(3,7) zipped_results [OF completes(5)] show ?thesis
    by (simp add: reads archive_of_def)
qed

theorem log_file_joins_messages_witness:
  "map (\<lambda>z. map_of z ''log.txt'') (offered (snd (script sample_libs run_good world0)))
     = [Some (join newline [''Date: 2024-01-01'', ''start'', ''done''])]"
proof -
  have n: "length (offered (snd (script sample_libs run_good world0))) = 1"
    and m: "logged_messages (snd (script sample_libs run_good world0))
              = [''Date: 2024-01-01'', ''start'', ''done'']"
    by code_simp+
  from n obtain z where z: "offered (snd (script sample_libs run_good world0)) = [z]"
    by (cases "offered (snd (script sample_libs run_good world0))") auto
  then have "z \<in> set (offered (snd (script sample_libs run_good world0)))"
    by simp
  from log_file_joins_messages [OF surjective_pairing this] z m show ?thesis
    by simp
qed

text \<open>
  C7. A run with an uploaded file calls \<^verbatim>\<open>pd.read_csv\<close> exactly once, on that file,
  with the tab character as separator and column 0 as the index column (for pandas:
  the first column gives the row labels, the remaining header cells the column labels),
  and the table it returns is the abundance table given to the core.
\<close>

theorem upload_read_as_tsv:
  assumes "script lb i wld = (wld', effs)" and "abd_file i = Some f"
  shows "read_calls effs = [(f, [CHR 0x09], 0)]
       \<and> (\<forall>args \<in> set (core_calls effs). read_csv lb f [CHR 0x09] 0 = Inr (abundance args))"
  using assms
  by (cases rule: script_cases) (simp_all add: reads after_transform_reads args_of_def core_args_def tab_def)

theorem upload_read_as_tsv_witness:
  "read_calls (snd (script sample_libs run_good world0))
     = [(Some [[''a'', ''1'']], [CHR 0x09], 0)]
   \<and> map abundance (core_calls (snd (script sample_libs run_good world0))) = [[[''a'', ''1'']]]"
proof -
  have f: "abd_file run_good = Some (Some [[''a'', ''1'']])"
    by (simp add: run_good_def)
  have g: "length (core_calls (snd (script sample_libs run_good world0))) = 1"
    by code_simp
  then obtain a where a: "core_calls (snd (script sample_libs run_good world0)) = [a]"
    by (cases "core_calls (snd (script sample_libs run_good world0))") auto
  from upload_read_as_tsv [OF surjective_pairing f, of sample_libs world0] a
  show ?thesis
    by (simp add: sample_libs_def)
qed




text \<open>
  C10. When the core returns \<open>d\<close> and no call of the \<^verbatim>\<open>try\<close> fails, the
  relative-weight plot and the model-fit plot are written in every case, and the PCoA
  plot is written after them if and only if \<^verbatim>\<open>h.shape[1]\<close> is below 500.
\<close>

theorem pcoa_plot_below_500:
  assumes "script lb i wld = (wld', effs)"
    and "list_ex (call_returns lb (heap wld') d) effs"
    and "\<not> list_ex (call_fails lb (heap wld')) (tried effs)"
  shows "plots effs =
           [(Expander_results, Plot_relative_weight), (Expander_results, Plot_modelfit)]
           @ (if snd (shape lb (dec_h d)) < 500 then [(Expander_results, Plot_pcoa)] else [])"
  using assms(1)
proof (cases rule: run_cases)
  case idle
  with assms(2) show ?thesis by (simp add: tests)
next
  case (read_raises fl err)
  with assms(2) show ?thesis by (simp add: tests)
next
  case (core_raises fl abd_tbl msgs err)
  with assms(2) show ?thesis by (simp add: tests)
next
  case (prep_raises fl abd_tbl msgs d1 made pre e rest err)
  note c = made_raises [OF prep_raises(4,5) prep_calls_tests(5) prep_raises(6,7)]
  from assms(3) prep_raises(8) show ?thesis
    by (simp add: tried_head c(2))
next
  case (zip_raises fl abd_tbl msgs d1 err)
  with assms(3) show ?thesis
    by (simp add: tried_head)
next
  case (show_raises fl abd_tbl msgs d1 z made pre e rest err)
  note c = made_raises [OF show_raises(6,7) results_block_tests(3) show_raises(8,9)]
  from assms(3) show_raises(10) show ?thesis
    by (simp add: tried_head c(2))
next
  case (completes fl abd_tbl msgs d1 z)
  from assms(2) completes(3,7) have "d1 = d"
    by (simp add: tests)
  with completes(7) show ?thesis
    by (simp add: reads)
qed

theorem pcoa_plot_below_500_witness:
  "plots (snd (script (sample_wide 499) run_good world0))
     = [(Expander_results, Plot_relative_weight), (Expander_results, Plot_modelfit),
        (Expander_results, Plot_pcoa)]
   \<and> plots (snd (script (sample_wide 500) run_good world0))
     = [(Expander_results, Plot_relative_weight), (Expander_results, Plot_modelfit)]"
proof -
  have h: "list_ex (call_returns (sample_wide 499)
                      (heap (fst (script (sample_wide 499) run_good world0))) sample_result)
                   (snd (script (sample_wide 499) run_good world0))"
    and k: "list_ex (call_returns (sample_wide 500)
                      (heap (fst (script (sample_wide 500) run_good world0))) sample_result)
                   (snd (script (sample_wide 500) run_good world0))"
    and f: "\<not> list_ex (call_fails (sample_wide 499)
                      (heap (fst (script (sample_wide 499) run_good world0))))
                   (tried (snd (script (sample_wide 499) run_good world0)))"
    and g: "\<not> list_ex (call_fails (sample_wide 500)
                      (heap (fst (script (sample_wide 500) run_good world0))))
                   (tried (snd (script (sample_wide 500) run_good world0)))"
    by code_simp+
  from pcoa_plot_below_500 [OF surjective_pairing h f]
    pcoa_plot_below_500 [OF surjective_pairing k g]
  show ?thesis
    by (simp add: sample_wide_def)
qed

end
